theory Spec2Isabelle
  imports Main "HOL-Library.Sublist"
begin

section \<open>JavaScript values used by the scraper\<close>

subsection \<open>Strings\<close>

text \<open>
  A JavaScript string is a sequence of UTF-16 code units. It is modelled as the list of
  its code units, each a natural number; a literal of the source is written
  \<open>js ''...''\<close>.
\<close>

type_synonym jsstring = "nat list"

definition js :: "string \<Rightarrow> jsstring" where
  "js s = map of_char s"

text \<open>\<open>String.prototype.startsWith\<close> and \<open>endsWith\<close> with one argument.\<close>

definition startsWith :: "jsstring \<Rightarrow> jsstring \<Rightarrow> bool" where
  "startsWith s p = (take (length p) s = p)"

definition endsWith :: "jsstring \<Rightarrow> jsstring \<Rightarrow> bool" where
  "endsWith s p = (length p \<le> length s \<and> drop (length s - length p) s = p)"

text \<open>
  The code units that \<open>trim\<close> and \<open>parseInt\<close> strip: ECMAScript's WhiteSpace and
  LineTerminator productions (TAB, LF, VT, FF, CR, SP, NBSP, U+1680, U+2000 to U+200A,
  U+2028, U+2029, U+202F, U+205F, U+3000, U+FEFF).
\<close>

definition isWhiteSpace :: "nat \<Rightarrow> bool" where
  "isWhiteSpace c =
     (c = 9 \<or> c = 10 \<or> c = 11 \<or> c = 12 \<or> c = 13 \<or> c = 32 \<or> c = 160 \<or> c = 5760 \<or>
      (8192 \<le> c \<and> c \<le> 8202) \<or> c = 8232 \<or> c = 8233 \<or> c = 8239 \<or> c = 8287 \<or>
      c = 12288 \<or> c = 65279)"

definition trimStart :: "jsstring \<Rightarrow> jsstring" where
  "trimStart s = dropWhile isWhiteSpace s"

definition trim :: "jsstring \<Rightarrow> jsstring" where
  "trim s = rev (dropWhile isWhiteSpace (rev (dropWhile isWhiteSpace s)))"

text \<open>
  \<open>s.split(sep)\<close> for a separator of one code unit: the pieces between the separators,
  empty pieces included; the empty string gives one empty piece.
\<close>

fun split :: "nat \<Rightarrow> jsstring \<Rightarrow> jsstring list" where
  "split sep [] = [[]]"
| "split sep (c # cs) =
     (if c = sep then [] # split sep cs
      else (case split sep cs of
              [] \<Rightarrow> [[c]]
            | p # ps \<Rightarrow> (c # p) # ps))"

text \<open>
  \<open>s.replace(pattern, "")\<close> for a string pattern of one code unit: the first occurrence
  is removed, later ones stay.
\<close>

definition replaceFirst :: "nat \<Rightarrow> jsstring \<Rightarrow> jsstring" where
  "replaceFirst c s = remove1 c s"

subsection \<open>Numbers\<close>

text \<open>
  The numbers of this program come from \<open>parseInt\<close> and from subtracting two of them.
  A number is \<open>NaN\<close> or an integer. JavaScript numbers are doubles: an integer of
  magnitude up to \<open>2 ^ 53\<close> is held exactly, a larger one is rounded (and a very large
  one is Infinity). The predicate \<open>safeNum\<close> marks the numbers for which the model and
  the double agree; the sign of a zero is not modelled, no operation here tells \<open>-0\<close>
  from \<open>+0\<close>.
\<close>

datatype jsnum = NaN | Num int


fun numSub :: "jsnum \<Rightarrow> jsnum \<Rightarrow> jsnum" where
  "numSub (Num a) (Num b) = Num (a - b)"
| "numSub _ _ = NaN"

text \<open>\<open>v > 0\<close>: false for \<open>NaN\<close>.\<close>

fun numPositive :: "jsnum \<Rightarrow> bool" where
  "numPositive (Num n) = (0 < n)"
| "numPositive NaN = False"

text \<open>The value of a code unit as a digit of the radix, if it is one.\<close>

definition digitValue :: "nat \<Rightarrow> nat \<Rightarrow> nat option" where
  "digitValue radix c =
     (let v = (if 48 \<le> c \<and> c \<le> 57 then Some (c - 48)
               else if 97 \<le> c \<and> c \<le> 122 then Some (c - 87)
               else if 65 \<le> c \<and> c \<le> 90 then Some (c - 55)
               else None)
      in case v of None \<Rightarrow> None | Some d \<Rightarrow> if d < radix then Some d else None)"

definition digitsValue :: "nat \<Rightarrow> jsstring \<Rightarrow> nat" where
  "digitsValue radix z =
     foldl (\<lambda>acc c. acc * radix + (case digitValue radix c of None \<Rightarrow> 0 | Some d \<Rightarrow> d)) 0 z"

text \<open>
  \<open>parseInt(string)\<close> with no radix argument: leading white space is skipped, one sign
  is read, a \<open>0x\<close> or \<open>0X\<close> prefix selects radix 16 and is dropped, otherwise the radix
  is 10; the longest prefix of digits is the value; no digit at all gives \<open>NaN\<close>.
\<close>

definition parseInt :: "jsstring \<Rightarrow> jsnum" where
  "parseInt inputString =
     (let s = trimStart inputString;
          negative = (take 1 s = js ''-'');
          s1 = (if take 1 s = js ''+'' \<or> take 1 s = js ''-'' then drop 1 s else s);
          hex = (take 2 s1 = js ''0x'' \<or> take 2 s1 = js ''0X'');
          radix = (if hex then 16 else 10);
          s2 = (if hex then drop 2 s1 else s1);
          z = takeWhile (\<lambda>c. digitValue radix c \<noteq> None) s2
      in if z = [] then NaN
         else Num ((if negative then - 1 else 1) * int (digitsValue radix z)))"

subsection \<open>Array.prototype.sort\<close>

text \<open>
  \<open>array.sort(comparefn)\<close> is a stable sort: an element moves in front of another only
  when the comparator asks for it. ECMAScript reads a comparator result of \<open>NaN\<close> as
  \<open>+0\<close>, and fixes the order only when the comparator is consistent on the array, which
  a comparator that returns \<open>NaN\<close> is not: with such an array the order is left to the
  implementation. The model sorts by stable insertion; on an array with a \<open>NaN\<close> key
  this is an order the specification allows, not necessarily the order of a given
  engine, and the properties proved of the sort leave such arrays out. Only the sign of
  a comparator result is used.
\<close>

definition sortCompare :: "('a \<Rightarrow> 'a \<Rightarrow> jsnum) \<Rightarrow> 'a \<Rightarrow> 'a \<Rightarrow> int" where
  "sortCompare comparefn x y = (case comparefn x y of NaN \<Rightarrow> 0 | Num v \<Rightarrow> v)"

fun insertSorted :: "('a \<Rightarrow> 'a \<Rightarrow> jsnum) \<Rightarrow> 'a \<Rightarrow> 'a list \<Rightarrow> 'a list" where
  "insertSorted comparefn x [] = [x]"
| "insertSorted comparefn x (y # ys) =
     (if sortCompare comparefn x y \<le> 0 then x # y # ys
      else y # insertSorted comparefn x ys)"

definition arraySort :: "('a \<Rightarrow> 'a \<Rightarrow> jsnum) \<Rightarrow> 'a list \<Rightarrow> 'a list" where
  "arraySort comparefn xs = foldr (insertSorted comparefn) xs []"

subsection \<open>Thrown values and the session state\<close>

text \<open>
  What the program throws and catches: an \<open>Error\<close> with its message, or the
  controller's \<open>ApiError\<close> with a status code and a message. A call that can throw, or
  an awaited promise, returns \<open>Inl\<close> the thrown value or \<open>Inr\<close> the result.
\<close>

datatype exn = Error jsstring | ApiError nat jsstring

fun message :: "exn \<Rightarrow> jsstring" where
  "message (Error m) = m"
| "message (ApiError _ m) = m"

text \<open>
  The two fields of class \<open>Scraper\<close>; \<open>None\<close> is \<open>null\<close>. A browser or a page is
  a handle of the automation library.
\<close>

type_synonym browser = nat
type_synonym page = nat

record scraper =
  browser :: "browser option"
  page :: "page option"

section \<open>Poster extraction (Scraper.scrapePoster)\<close>

subsection \<open>The srcset branch\<close>

record srcsetEntry =
  url :: jsstring
  width :: jsnum

text \<open>
  The callback of \<open>srcset.split(",").map(...)\<close>: the entry is trimmed and split at
  single spaces; the first part is the URL, the second (when present and not empty) the
  descriptor, whose first \<open>w\<close> is removed before \<open>parseInt\<close>. \<open>split\<close> never returns
  an empty array (lemma \<open>split_not_Nil\<close>), so \<open>parts[0]\<close> is always a string.
\<close>

definition parseEntry :: "jsstring \<Rightarrow> srcsetEntry" where
  "parseEntry entry =
     (let parts = split 32 (trim entry);
          url = (case parts of [] \<Rightarrow> [] | p0 # _ \<Rightarrow> trim p0);
          descriptor = (case drop 1 parts of
                          [] \<Rightarrow> []
                        | p1 # _ \<Rightarrow> if p1 \<noteq> [] then trim p1 else []);
          width = (if descriptor \<noteq> [] then parseInt (replaceFirst 119 descriptor)
                   else Num 0)
      in \<lparr>url = url, width = width\<rparr>)"

definition srcsetEntries :: "jsstring \<Rightarrow> srcsetEntry list" where
  "srcsetEntries srcset = map parseEntry (split 44 srcset)"

text \<open>The comparator \<open>(a, b) => b.width - a.width\<close>.\<close>

definition byWidthDesc :: "srcsetEntry \<Rightarrow> srcsetEntry \<Rightarrow> jsnum" where
  "byWidthDesc a b = numSub (width b) (width a)"

text \<open>
  Lines 476 to 506, for a srcset that passed \<open>if (srcset)\<close>: \<open>Some u\<close> when the branch
  returns the URL \<open>u\<close>, \<open>None\<close> when control falls through to the \<open>src\<close> attribute.
\<close>

definition srcsetBranch :: "jsstring \<Rightarrow> jsstring option" where
  "srcsetBranch srcset =
     (case arraySort byWidthDesc (srcsetEntries srcset) of
        [] \<Rightarrow> None
      | highestQuality # _ \<Rightarrow>
          if numPositive (width highestQuality) \<and> url highestQuality \<noteq> [] \<and>
             startsWith (url highestQuality) (js ''http'')
          then Some (url highestQuality)
          else None)"

subsection \<open>The page and the whole extractor\<close>

text \<open>
  An image element: its \<open>srcset\<close> and \<open>src\<close> attributes (absent or a string) and its
  \<open>src\<close> property (the resolved URL, empty when there is none).
\<close>

record img =
  srcsetAttr :: "jsstring option"
  srcAttr :: "jsstring option"
  srcProp :: jsstring

text \<open>The document, as far as the poster callbacks query it.\<close>

record dom =
  querySelector :: "jsstring \<Rightarrow> img option"
  querySelectorAll :: "jsstring \<Rightarrow> img list"

definition posterSelectors :: "jsstring list" where
  "posterSelectors =
     [js ''[data-testid=\"hero-media__poster\"] .ipc-image'',
      js ''.ipc-poster__poster-image .ipc-image'',
      js ''.sc-b234497d-7 .ipc-image'',
      js ''.ipc-media--poster-27x40 .ipc-image'',
      js ''.ipc-poster .ipc-image'']"

text \<open>
  The selector loop: \<open>posterImg\<close> is overwritten by every query and the loop stops at
  the first element with a non-empty \<open>src\<close>.
\<close>

fun selectPosterImg :: "dom \<Rightarrow> jsstring list \<Rightarrow> img option \<Rightarrow> img option" where
  "selectPosterImg d [] posterImg = posterImg"
| "selectPosterImg d (selector # rest) posterImg =
     (case querySelector d selector of
        None \<Rightarrow> selectPosterImg d rest None
      | Some i \<Rightarrow> if srcProp i \<noteq> [] then Some i else selectPosterImg d rest (Some i))"

definition posterFromImg :: "img \<Rightarrow> jsstring option" where
  "posterFromImg posterImg =
     (case (case srcsetAttr posterImg of
              None \<Rightarrow> None
            | Some srcset \<Rightarrow> if srcset \<noteq> [] then srcsetBranch srcset else None) of
        Some u \<Rightarrow> Some u
      | None \<Rightarrow>
          (let srcUrl = (case srcAttr posterImg of None \<Rightarrow> [] | Some a \<Rightarrow> a)
           in if srcUrl \<noteq> [] \<and> startsWith srcUrl (js ''http'') then Some srcUrl
              else if srcProp posterImg \<noteq> [] \<and> startsWith (srcProp posterImg) (js ''http'')
                   then Some (srcProp posterImg)
                   else None))"

text \<open>The first \<open>page.evaluate\<close> callback (lines 437 to 522).\<close>

definition posterCallback :: "dom \<Rightarrow> jsstring option" where
  "posterCallback d =
     (let posterImg = (case selectPosterImg d posterSelectors None of
                         Some i \<Rightarrow> Some i
                       | None \<Rightarrow>
                           (case querySelectorAll d
                                   (js ''img[alt*=\"poster\" i], img[alt*=\"Poster\"]'') of
                              [] \<Rightarrow> None
                            | i # _ \<Rightarrow> Some i))
      in case posterImg of None \<Rightarrow> None | Some i \<Rightarrow> posterFromImg i)"

definition fallbackSelectors :: "jsstring list" where
  "fallbackSelectors =
     [js ''img[src*=\"amazon.com\"][src*=\"MV5B\"]'',
      js ''img[alt*=\"poster\" i]'',
      js ''.ipc-image[src*=\"amazon.com\"]'',
      js ''[data-testid*=\"poster\"] img'']"

text \<open>The second \<open>page.evaluate\<close> callback (lines 535 to 556), run in the catch block.\<close>

fun fallbackLoop :: "dom \<Rightarrow> jsstring list \<Rightarrow> jsstring option" where
  "fallbackLoop d [] = None"
| "fallbackLoop d (selector # rest) =
     (case querySelector d selector of
        None \<Rightarrow> fallbackLoop d rest
      | Some i \<Rightarrow>
          if srcProp i \<noteq> [] \<and> startsWith (srcProp i) (js ''http'') \<and>
             \<not> endsWith (srcProp i) (js ''.jpg'')
          then Some (srcProp i)
          else fallbackLoop d rest)"

definition fallbackCallback :: "dom \<Rightarrow> jsstring option" where
  "fallbackCallback d = fallbackLoop d fallbackSelectors"

text \<open>
  What the page does when \<open>scrapePoster\<close> calls it: whether \<open>waitForSelector\<close> and
  the two \<open>evaluate\<close> calls resolve (\<open>Inr\<close>) or reject (\<open>Inl\<close>), and the document the
  callbacks run in.
\<close>

record posterEnv =
  waitForPoster :: "exn + unit"
  evaluatePoster :: "exn + unit"
  evaluateFallback :: "exn + unit"
  document :: dom

text \<open>The try block of \<open>scrapePoster\<close> (lines 433 to 530).\<close>

definition posterTry :: "posterEnv \<Rightarrow> exn + jsstring option" where
  "posterTry env =
     (case waitForPoster env of
        Inl e \<Rightarrow> Inl e
      | Inr _ \<Rightarrow>
          (case evaluatePoster env of
             Inl e \<Rightarrow> Inl e
           | Inr _ \<Rightarrow>
               (case posterCallback (document env) of
                  None \<Rightarrow> Inr None
                | Some posterUrl \<Rightarrow> if posterUrl \<noteq> [] then Inr (Some posterUrl) else Inr None)))"

text \<open>The catch block (lines 531 to 563).\<close>

definition posterCatch :: "posterEnv \<Rightarrow> exn + jsstring option" where
  "posterCatch env =
     (case evaluateFallback env of
        Inl fallbackError \<Rightarrow> Inr None
      | Inr _ \<Rightarrow> Inr (fallbackCallback (document env)))"

definition scrapePoster :: "posterEnv \<Rightarrow> scraper \<Rightarrow> exn + jsstring option" where
  "scrapePoster env s =
     (case page s of
        None \<Rightarrow> Inl (Error (js ''Page not loaded. Call start first.''))
      | Some _ \<Rightarrow>
          (case posterTry env of
             Inr posterUrl \<Rightarrow> Inr posterUrl
           | Inl error \<Rightarrow> posterCatch env))"

section \<open>Video sources: the deduplication step (Scraper.scrapeVideoSources)\<close>

text \<open>
  A collected source. Only \<open>src\<close> takes part in the deduplication; the other properties
  (\<open>type\<close>, \<open>poster\<close>, \<open>id\<close>, \<open>isIMDbPlayer\<close>, ...) travel in the record extension.
\<close>

record videoSource =
  src :: jsstring

text \<open>\<open>Array.prototype.findIndex\<close>: the first index whose element passes, or \<open>-1\<close>.\<close>

fun findIndexFrom :: "('a \<Rightarrow> bool) \<Rightarrow> nat \<Rightarrow> 'a list \<Rightarrow> int" where
  "findIndexFrom p i [] = - 1"
| "findIndexFrom p i (x # xs) = (if p x then int i else findIndexFrom p (Suc i) xs)"

definition findIndex :: "('a \<Rightarrow> bool) \<Rightarrow> 'a list \<Rightarrow> int" where
  "findIndex p xs = findIndexFrom p 0 xs"

text \<open>
  \<open>Array.prototype.filter\<close> with the three-argument callback \<open>(element, index, self)\<close>.
\<close>

fun filterFrom :: "('a \<Rightarrow> nat \<Rightarrow> 'a list \<Rightarrow> bool) \<Rightarrow> nat \<Rightarrow> 'a list \<Rightarrow> 'a list \<Rightarrow> 'a list" where
  "filterFrom f i self [] = []"
| "filterFrom f i self (x # xs) =
     (if f x i self then x # filterFrom f (Suc i) self xs else filterFrom f (Suc i) self xs)"

definition filterIndexed :: "('a \<Rightarrow> nat \<Rightarrow> 'a list \<Rightarrow> bool) \<Rightarrow> 'a list \<Rightarrow> 'a list" where
  "filterIndexed f xs = filterFrom f 0 xs xs"

text \<open>Lines 676 to 680.\<close>

definition uniqueSources ::
  "'a videoSource_scheme list \<Rightarrow> 'a videoSource_scheme list \<Rightarrow> 'a videoSource_scheme list" where
  "uniqueSources videoSources imdbVideoSources =
     (let allSources = videoSources @ imdbVideoSources
      in filterIndexed
           (\<lambda>source index self. int index = findIndex (\<lambda>s. src s = src source) self)
           allSources)"

section \<open>The browser session (class Scraper)\<close>

subsection \<open>The outside world\<close>

text \<open>
  The option objects passed to \<open>puppeteer.launch\<close>: \<open>this.browserOptions\<close>, the same
  without \<open>executablePath\<close> (the fallback of \<open>start\<close>), the minimal flags, and the
  system Chrome binary.
\<close>

datatype launchOptions = Configured | WithoutExecutablePath | Minimal | SystemChrome

text \<open>
  Where a page is sent: to the link itself, or to the gateway URL that wraps the link.
\<close>

datatype target = Direct jsstring | ViaScraperApi jsstring

text \<open>
  How the automation library answers during one start of a session: every call resolves
  (\<open>Inr\<close>) or rejects (\<open>Inl\<close>).
\<close>

record world =
  launch :: "launchOptions \<Rightarrow> exn + browser"
  newPage :: "exn + page"
  setUserAgent :: "exn + unit"
  setViewport :: "exn + unit"
  goto :: "target \<Rightarrow> exn + unit"
  browserClose :: "exn + unit"

text \<open>
  The calls made, the waits and the strategy warnings, in order. Each event is recorded
  with the fields of the scraper at that moment: the calls are the points at which an
  asynchronous method is suspended, so these are the states other code can observe.
\<close>

datatype event =
    Launch launchOptions
  | WarnStrategyFailed nat
  | NewPage browser
  | SetUserAgent page
  | SetViewport page
  | Goto page target
  | Sleep nat
  | BrowserClose browser
  | WaitForSelector page jsstring
  | EvalAll page jsstring
  | RunExtractors page

type_synonym trace = "(event \<times> scraper) list"

subsection \<open>close\<close>

text \<open>
  The try block of \<open>close\<close> (lines 943 to 949); \<open>teardown\<close> is the outcome of
  \<open>this.browser.close()\<close>, consulted only when the call is made.
\<close>

definition closeTry :: "exn + unit \<Rightarrow> scraper \<Rightarrow> (exn + unit) \<times> scraper \<times> trace" where
  "closeTry teardown s =
     (case browser s of
        None \<Rightarrow> (Inr (), s, [])
      | Some b \<Rightarrow>
          (case teardown of
             Inl e \<Rightarrow> (Inl e, s, [(BrowserClose b, s)])
           | Inr _ \<Rightarrow> (Inr (), s\<lparr>browser := None, page := None\<rparr>, [(BrowserClose b, s)])))"

text \<open>\<open>close\<close>: the catch block logs the error and returns.\<close>

definition close :: "exn + unit \<Rightarrow> scraper \<Rightarrow> (exn + unit) \<times> scraper \<times> trace" where
  "close teardown s =
     (case closeTry teardown s of
        (Inl error, s', tr) \<Rightarrow> (Inr (), s', tr)
      | (Inr u, s', tr) \<Rightarrow> (Inr u, s', tr))"

subsection \<open>start\<close>

text \<open>\<open>setUserAgent\<close> and \<open>setViewport\<close> on the new page (lines 62 to 65, 149 to 152).\<close>

definition pageSetup :: "world \<Rightarrow> page \<Rightarrow> scraper \<Rightarrow> (exn + unit) \<times> trace" where
  "pageSetup w p s =
     (case setUserAgent w of
        Inl e \<Rightarrow> (Inl e, [(SetUserAgent p, s)])
      | Inr _ \<Rightarrow>
          (case setViewport w of
             Inl e \<Rightarrow> (Inl e, [(SetUserAgent p, s), (SetViewport p, s)])
           | Inr _ \<Rightarrow> (Inr (), [(SetUserAgent p, s), (SetViewport p, s)])))"

text \<open>The launch of \<open>start\<close> with its fallback (lines 41 to 53).\<close>

definition startLaunch :: "world \<Rightarrow> scraper \<Rightarrow> (exn + browser) \<times> trace" where
  "startLaunch w s =
     (case launch w Configured of
        Inr b \<Rightarrow> (Inr b, [(Launch Configured, s)])
      | Inl launchError \<Rightarrow>
          (launch w WithoutExecutablePath,
           [(Launch Configured, s), (Launch WithoutExecutablePath, s)]))"

text \<open>The try block of \<open>start\<close> (lines 37 to 73).\<close>

definition startTry :: "jsstring \<Rightarrow> world \<Rightarrow> scraper \<Rightarrow> (exn + unit) \<times> scraper \<times> trace" where
  "startTry link w s =
     (case startLaunch w s of
        (Inl e, tr1) \<Rightarrow> (Inl e, s, tr1)
      | (Inr b, tr1) \<Rightarrow>
          (let s1 = s\<lparr>browser := Some b\<rparr>
           in case newPage w of
                Inl e \<Rightarrow> (Inl e, s1, tr1 @ [(NewPage b, s1)])
              | Inr p \<Rightarrow>
                  (let s2 = s1\<lparr>page := Some p\<rparr>
                   in case pageSetup w p s2 of
                        (Inl e, tr2) \<Rightarrow> (Inl e, s2, tr1 @ [(NewPage b, s1)] @ tr2)
                      | (Inr _, tr2) \<Rightarrow>
                          (case goto w (ViaScraperApi link) of
                             Inl e \<Rightarrow>
                               (Inl e, s2,
                                tr1 @ [(NewPage b, s1)] @ tr2 @
                                [(Goto p (ViaScraperApi link), s2)])
                           | Inr _ \<Rightarrow>
                               (Inr (), s2,
                                tr1 @ [(NewPage b, s1)] @ tr2 @
                                [(Goto p (ViaScraperApi link), s2), (Sleep 3000, s2)])))))"

text \<open>\<open>start\<close>: on an error the session is closed and the error is thrown again.\<close>

definition start :: "jsstring \<Rightarrow> world \<Rightarrow> scraper \<Rightarrow> (exn + unit) \<times> scraper \<times> trace" where
  "start link w s =
     (case startTry link w s of
        (Inr u, s1, tr) \<Rightarrow> (Inr u, s1, tr)
      | (Inl error, s1, tr) \<Rightarrow>
          (case close (browserClose w) s1 of
             (Inl e, s2, trc) \<Rightarrow> (Inl e, s2, tr @ trc)
           | (Inr _, s2, trc) \<Rightarrow> (Inl error, s2, tr @ trc)))"

subsection \<open>startWithRetry\<close>

definition strategies :: "launchOptions list" where
  "strategies = [Configured, Minimal, SystemChrome]"

text \<open>
  The loop over the strategies (lines 116 to 135); \<open>k\<close> is the number of the strategy,
  \<open>strategies.indexOf(strategy) + 1\<close>. The flag returned is \<open>browserLaunched\<close>.
\<close>

fun tryStrategies :: "world \<Rightarrow> nat \<Rightarrow> launchOptions list \<Rightarrow> scraper \<Rightarrow> bool \<times> scraper \<times> trace" where
  "tryStrategies w k [] s = (False, s, [])"
| "tryStrategies w k (strategy # rest) s =
     (case launch w strategy of
        Inr b \<Rightarrow> (True, s\<lparr>browser := Some b\<rparr>, [(Launch strategy, s)])
      | Inl strategyError \<Rightarrow>
          (case tryStrategies w (Suc k) rest s of
             (launched, s', tr) \<Rightarrow>
               (launched, s', (Launch strategy, s) # (WarnStrategyFailed k, s) # tr)))"

text \<open>Direct load first, the gateway on failure, then the settle delay (lines 155 to 177).\<close>

definition navigate :: "jsstring \<Rightarrow> world \<Rightarrow> page \<Rightarrow> scraper \<Rightarrow> (exn + unit) \<times> trace" where
  "navigate link w p s =
     (case goto w (Direct link) of
        Inr _ \<Rightarrow> (Inr (), [(Goto p (Direct link), s), (Sleep 3000, s)])
      | Inl directError \<Rightarrow>
          (case goto w (ViaScraperApi link) of
             Inl e \<Rightarrow> (Inl e, [(Goto p (Direct link), s), (Goto p (ViaScraperApi link), s)])
           | Inr _ \<Rightarrow>
               (Inr (),
                [(Goto p (Direct link), s), (Goto p (ViaScraperApi link), s), (Sleep 3000, s)])))"

text \<open>The attempt after the strategy loop (lines 137 to 178).\<close>

definition afterLaunch ::
  "jsstring \<Rightarrow> world \<Rightarrow> bool \<Rightarrow> scraper \<Rightarrow> trace \<Rightarrow> (exn + unit) \<times> scraper \<times> trace" where
  "afterLaunch link w browserLaunched s1 tr1 =
     (if \<not> browserLaunched
      then (Inl (Error (js ''All browser launch strategies failed'')), s1, tr1)
      else case browser s1 of
             None \<Rightarrow> (Inl (Error (js ''Browser is null after launch'')), s1, tr1)
           | Some b \<Rightarrow>
               (case newPage w of
                  Inl e \<Rightarrow> (Inl e, s1, tr1 @ [(NewPage b, s1)])
                | Inr p \<Rightarrow>
                    (let s2 = s1\<lparr>page := Some p\<rparr>
                     in case pageSetup w p s2 of
                          (Inl e, tr2) \<Rightarrow> (Inl e, s2, tr1 @ [(NewPage b, s1)] @ tr2)
                        | (Inr _, tr2) \<Rightarrow>
                            (case navigate link w p s2 of
                               (r, tr3) \<Rightarrow> (r, s2, tr1 @ [(NewPage b, s1)] @ tr2 @ tr3)))))"

text \<open>The try block of one attempt (lines 86 to 178).\<close>

definition attemptTry :: "jsstring \<Rightarrow> world \<Rightarrow> scraper \<Rightarrow> (exn + unit) \<times> scraper \<times> trace" where
  "attemptTry link w s =
     (case tryStrategies w 1 strategies s of
        (browserLaunched, s1, tr1) \<Rightarrow> afterLaunch link w browserLaunched s1 tr1)"

text \<open>Decimal digits of a number, as a template literal prints it.\<close>

fun showNat :: "nat \<Rightarrow> jsstring" where
  "showNat n = (if n < 10 then [48 + n] else showNat (n div 10) @ [48 + n mod 10])"

declare showNat.simps [simp del]

text \<open>The error thrown after the loop (lines 195 to 197).\<close>

definition startFailure :: "nat \<Rightarrow> exn option \<Rightarrow> exn" where
  "startFailure maxRetries lastError =
     Error (js ''Failed to start browser after '' @ showNat maxRetries @
            js '' attempts. Last error: '' @
            (case lastError of None \<Rightarrow> js ''undefined'' | Some e \<Rightarrow> message e))"

text \<open>
  The loop over the attempts (lines 85 to 197), entered with \<open>attempt\<close> and
  \<open>lastError\<close>; \<open>ws attempt\<close> is the world of that attempt.
\<close>

function attemptLoop ::
  "jsstring \<Rightarrow> nat \<Rightarrow> (nat \<Rightarrow> world) \<Rightarrow> nat \<Rightarrow> exn option \<Rightarrow> scraper \<Rightarrow>
   (exn + unit) \<times> scraper \<times> trace" where
  "attemptLoop link maxRetries ws attempt lastError s =
     (if attempt \<le> maxRetries then
        (case attemptTry link (ws attempt) s of
           (Inr _, s1, tr) \<Rightarrow> (Inr (), s1, tr)
         | (Inl error, s1, tr) \<Rightarrow>
             (case close (browserClose (ws attempt)) s1 of
                (Inl e, s2, trc) \<Rightarrow> (Inl e, s2, tr @ trc)
              | (Inr _, s2, trc) \<Rightarrow>
                  if attempt = maxRetries
                  then (Inl (startFailure maxRetries (Some error)), s2, tr @ trc)
                  else (case attemptLoop link maxRetries ws (Suc attempt) (Some error) s2 of
                          (r, s3, tr3) \<Rightarrow>
                            (r, s3, tr @ trc @ [(Sleep (2000 * attempt), s2)] @ tr3))))
      else (Inl (startFailure maxRetries lastError), s, []))"
  by pat_completeness auto
termination
  by (relation "measure (\<lambda>(link, maxRetries, ws, attempt, lastError, s). Suc maxRetries - attempt)")
     auto

declare attemptLoop.simps [simp del]

definition startWithRetry ::
  "jsstring \<Rightarrow> nat \<Rightarrow> (nat \<Rightarrow> world) \<Rightarrow> scraper \<Rightarrow> (exn + unit) \<times> scraper \<times> trace" where
  "startWithRetry link maxRetries ws s = attemptLoop link maxRetries ws 1 None s"

subsection \<open>Methods suspended at their awaits\<close>

text \<open>
  An asynchronous method runs until its next \<open>await\<close>, is suspended there, and goes
  on when the awaited call has answered; while it is suspended, other methods of the
  same object may run. The controller creates one \<open>Scraper\<close> in its constructor
  (ScraperController.ts, lines 8 to 10) and both routes use it, so the methods of two
  requests can take turns on the same fields. A task is a call of \<open>close\<close>, or the try
  block of one attempt of \<open>startWithRetry\<close> up to the await of line 149, at one of its
  points of suspension:
  \<^item> \<open>CloseCalled\<close>: \<open>close\<close> is called and has not run yet;
  \<^item> \<open>CloseAwaitsTeardown b\<close>: suspended at line 945, in \<open>b.close()\<close>;
  \<^item> \<open>CloseReturned\<close>: \<open>close\<close> has returned;
  \<^item> \<open>AttemptCalled\<close>: the try block is entered and has not run yet;
  \<^item> \<open>AttemptAwaitsLaunch k strs\<close>: suspended at line 120 in the launch of the first
    strategy of \<open>strs\<close>, which is strategy number \<open>k\<close>; the rest of \<open>strs\<close> is still
    to be tried;
  \<^item> \<open>AttemptAwaitsNewPage b\<close>: suspended at line 146, in \<open>b.newPage()\<close>;
  \<^item> \<open>AttemptAwaitsSetUserAgent p\<close>: suspended at line 149, in \<open>p.setUserAgent(...)\<close>;
  \<^item> \<open>AttemptThrew e\<close>: the try block has thrown \<open>e\<close>.
\<close>

datatype task =
    CloseCalled
  | CloseAwaitsTeardown browser
  | CloseReturned
  | AttemptCalled
  | AttemptAwaitsLaunch nat "launchOptions list"
  | AttemptAwaitsNewPage browser
  | AttemptAwaitsSetUserAgent page
  | AttemptThrew exn

text \<open>
  One turn of a task: the statements from its point of suspension to the next one, on the
  fields as they are now; \<open>w\<close> holds the answers to the calls of this task. A task that
  has returned or thrown, or has reached line 149, does nothing more here.
\<close>

fun resume :: "world \<Rightarrow> task \<Rightarrow> scraper \<Rightarrow> task \<times> scraper" where
  "resume w CloseCalled s =
     (case browser s of
        None \<Rightarrow> (CloseReturned, s)
      | Some b \<Rightarrow> (CloseAwaitsTeardown b, s))"
| "resume w (CloseAwaitsTeardown b) s =
     (case browserClose w of
        Inl error \<Rightarrow> (CloseReturned, s)
      | Inr _ \<Rightarrow> (CloseReturned, s\<lparr>browser := None, page := None\<rparr>))"
| "resume w AttemptCalled s =
     (case strategies of
        [] \<Rightarrow> (AttemptThrew (Error (js ''All browser launch strategies failed'')), s)
      | strategy # rest \<Rightarrow> (AttemptAwaitsLaunch 1 (strategy # rest), s))"
| "resume w (AttemptAwaitsLaunch k []) s =
     (AttemptThrew (Error (js ''All browser launch strategies failed'')), s)"
| "resume w (AttemptAwaitsLaunch k (strategy # rest)) s =
     (case launch w strategy of
        Inr b \<Rightarrow>
          (let s1 = s\<lparr>browser := Some b\<rparr>
           in case browser s1 of
                None \<Rightarrow> (AttemptThrew (Error (js ''Browser is null after launch'')), s1)
              | Some b1 \<Rightarrow> (AttemptAwaitsNewPage b1, s1))
      | Inl strategyError \<Rightarrow>
          (case rest of
             [] \<Rightarrow> (AttemptThrew (Error (js ''All browser launch strategies failed'')), s)
           | _ # _ \<Rightarrow> (AttemptAwaitsLaunch (Suc k) rest, s)))"
| "resume w (AttemptAwaitsNewPage b) s =
     (case newPage w of
        Inl e \<Rightarrow> (AttemptThrew e, s)
      | Inr p \<Rightarrow> (AttemptAwaitsSetUserAgent p, s\<lparr>page := Some p\<rparr>))"
| "resume w t s = (t, s)"

text \<open>A task taking \<open>n\<close> turns with no other task in between.\<close>

fun alone :: "world \<Rightarrow> nat \<Rightarrow> task \<times> scraper \<Rightarrow> task \<times> scraper" where
  "alone w 0 c = c"
| "alone w (Suc n) (t, s) = alone w n (resume w t s)"

text \<open>
  Two tasks on the same fields, each with its own answers; the schedule says whose turn
  it is.
\<close>

datatype turn = First | Second

fun interleave ::
  "world \<Rightarrow> world \<Rightarrow> turn list \<Rightarrow> task \<times> task \<times> scraper \<Rightarrow> task \<times> task \<times> scraper" where
  "interleave w1 w2 [] c = c"
| "interleave w1 w2 (First # sched) (t1, t2, s) =
     (case resume w1 t1 s of (t1', s') \<Rightarrow> interleave w1 w2 sched (t1', t2, s'))"
| "interleave w1 w2 (Second # sched) (t1, t2, s) =
     (case resume w2 t2 s of (t2', s') \<Rightarrow> interleave w1 w2 sched (t1, t2', s'))"

subsection \<open>scrapeCompleteMovieData\<close>

text \<open>
  The eight extractors run on the loaded page, each with its own \<open>catch\<close> that turns a
  failure into \<open>null\<close>, so \<open>Promise.all\<close> always resolves; \<open>extracted\<close> is the merged
  record they give. The two \<open>close\<close> outcomes are those of the call after the
  extraction and of the call in the catch block.
\<close>

record 'd movieEnv =
  movieSessions :: "nat \<Rightarrow> world"
  extracted :: 'd
  closeAfterMovie :: "exn + unit"
  closeOnMovieError :: "exn + unit"

definition scrapeCompleteMovieData ::
  "jsstring \<Rightarrow> 'd movieEnv \<Rightarrow> scraper \<Rightarrow> (exn + 'd) \<times> scraper \<times> trace" where
  "scrapeCompleteMovieData link env s =
     (case startWithRetry link 3 (movieSessions env) s of
        (Inl e, s1, tr1) \<Rightarrow> (Inl e, s1, tr1)
      | (Inr _, s1, tr1) \<Rightarrow>
          (case page s1 of
             None \<Rightarrow> (Inl (Error (js ''Page not initialized'')), s1, tr1)
           | Some p \<Rightarrow>
               (case close (closeAfterMovie env) s1 of
                  (Inr _, s2, trc) \<Rightarrow>
                    (Inr (extracted env), s2, tr1 @ [(RunExtractors p, s1)] @ trc)
                | (Inl error, s2, trc) \<Rightarrow>
                    (case close (closeOnMovieError env) s2 of
                       (Inl e, s3, trc') \<Rightarrow>
                         (Inl e, s3, tr1 @ [(RunExtractors p, s1)] @ trc @ trc')
                     | (Inr _, s3, trc') \<Rightarrow>
                         (Inl error, s3, tr1 @ [(RunExtractors p, s1)] @ trc @ trc')))))"

section \<open>Trending list (Scraper.scrapeTrending)\<close>

text \<open>
  One item built by the in-page callback. \<open>imdbId\<close> and \<open>title\<close> are always strings
  (\<open>|| ""\<close>); the other properties (\<open>year\<close>, \<open>runtime\<close>, \<open>stars\<close>, ...) travel in the
  record extension. Items that failed to extract are removed inside the page (line 380),
  so every element is an object.
\<close>

record movie =
  imdbId :: jsstring
  title :: jsstring

text \<open>What a value that should be an array turns out to be.\<close>

datatype 'm jsarray = Nullish | NotArray | Array "'m list"

text \<open>The filter callback of lines 402 to 409.\<close>

definition validMovie :: "'a movie_scheme \<Rightarrow> bool" where
  "validMovie m =
     (title m \<noteq> [] \<and> trim (title m) \<noteq> [] \<and> imdbId m \<noteq> [] \<and> startsWith (imdbId m) (js ''tt''))"

text \<open>Validation and filter (lines 391 to 412).\<close>

definition validateList :: "'a movie_scheme jsarray \<Rightarrow> 'a movie_scheme list" where
  "validateList movieList =
     (case movieList of
        Nullish \<Rightarrow> []
      | NotArray \<Rightarrow> []
      | Array ms \<Rightarrow> if length ms = 0 then [] else filter validMovie ms)"

record 'm trendingEnv =
  trendingSessions :: "nat \<Rightarrow> world"
  waitForList :: "exn + unit"
  evalList :: "exn + 'm jsarray"
  closeAfterList :: "exn + unit"
  closeOnListError :: "exn + unit"

definition listSelector :: jsstring where
  "listSelector = js ''.ipc-metadata-list-summary-item''"

text \<open>The try block of \<open>scrapeTrending\<close> (lines 275 to 412).\<close>

definition trendingTry ::
  "jsstring \<Rightarrow> 'a movie_scheme trendingEnv \<Rightarrow> scraper \<Rightarrow>
   (exn + 'a movie_scheme list) \<times> scraper \<times> trace" where
  "trendingTry link env s =
     (case startWithRetry link 3 (trendingSessions env) s of
        (Inl e, s1, tr1) \<Rightarrow> (Inl e, s1, tr1)
      | (Inr _, s1, tr1) \<Rightarrow>
          (case page s1 of
             None \<Rightarrow> (Inl (Error (js ''Page not initialized'')), s1, tr1)
           | Some p \<Rightarrow>
               (case waitForList env of
                  Inl e \<Rightarrow> (Inl e, s1, tr1 @ [(WaitForSelector p listSelector, s1)])
                | Inr _ \<Rightarrow>
                    (case evalList env of
                       Inl e \<Rightarrow>
                         (Inl e, s1,
                          tr1 @ [(WaitForSelector p listSelector, s1),
                                 (EvalAll p listSelector, s1)])
                     | Inr movieList \<Rightarrow>
                         (case close (closeAfterList env) s1 of
                            (Inl e, s2, trc) \<Rightarrow>
                              (Inl e, s2,
                               tr1 @ [(WaitForSelector p listSelector, s1),
                                      (EvalAll p listSelector, s1)] @ trc)
                          | (Inr _, s2, trc) \<Rightarrow>
                              (Inr (validateList movieList), s2,
                               tr1 @ [(WaitForSelector p listSelector, s1),
                                      (EvalAll p listSelector, s1)] @ trc))))))"

text \<open>\<open>scrapeTrending\<close>: the catch block closes the session and returns \<open>[]\<close>.\<close>

definition scrapeTrending ::
  "jsstring \<Rightarrow> 'a movie_scheme trendingEnv \<Rightarrow> scraper \<Rightarrow>
   (exn + 'a movie_scheme list) \<times> scraper \<times> trace" where
  "scrapeTrending link env s =
     (case trendingTry link env s of
        (Inr validMovies, s1, tr) \<Rightarrow> (Inr validMovies, s1, tr)
      | (Inl error, s1, tr) \<Rightarrow>
          (case close (closeOnListError env) s1 of
             (Inl e, s2, trc) \<Rightarrow> (Inl e, s2, tr @ trc)
           | (Inr _, s2, trc) \<Rightarrow> (Inr [], s2, tr @ trc)))"

section \<open>The HTTP controller (class ScraperController)\<close>

subsection \<open>Request values\<close>

text \<open>
  A value of a parsed JSON body: \<open>JUndefined\<close> for an absent field, a number (integers
  only, and in \<open>toString\<close> those a template literal prints digit by digit, below
  \<open>10 ^ 21\<close>; the one falsy number of JSON is zero), and \<open>JObject\<close> for an object or
  array, given by its string conversion.
\<close>

datatype jsval = JUndefined | JNull | JBool bool | JNum int | JStr jsstring | JObject jsstring

fun truthy :: "jsval \<Rightarrow> bool" where
  "truthy JUndefined = False"
| "truthy JNull = False"
| "truthy (JBool b) = b"
| "truthy (JNum n) = (n \<noteq> 0)"
| "truthy (JStr s) = (s \<noteq> [])"
| "truthy (JObject _) = True"

fun toString :: "jsval \<Rightarrow> jsstring" where
  "toString JUndefined = js ''undefined''"
| "toString JNull = js ''null''"
| "toString (JBool b) = (if b then js ''true'' else js ''false'')"
| "toString (JNum n) = (if n < 0 then js ''-'' @ showNat (nat (- n)) else showNat (nat n))"
| "toString (JStr s) = s"
| "toString (JObject r) = r"

text \<open>
  What the controller reads from the process and the engine: \<open>NODE_ENV\<close>, the stack of
  an error, and the message of the TypeError for destructuring \<open>undefined\<close>.
\<close>

record engine =
  nodeEnv :: "jsstring option"
  stackOf :: "exn \<Rightarrow> jsstring"
  destructureMessage :: jsstring

subsection \<open>scrapeMovie\<close>

text \<open>
  The JSON bodies of the responses: \<open>ImdbidRequired e x\<close> is
  \<open>{error: e, example: {url: x}}\<close>, \<open>MovieSuccess d\<close> is \<open>{success: true, data: d,
  scrapedAt}\<close>, \<open>MovieFailure e m d\<close> is \<open>{error: e, message: m, details: d}\<close>. A
  response is its status code and its body; \<open>res.json\<close> alone sends status 200. The
  timestamp is left out.
\<close>

datatype 'd movieBody =
    ImdbidRequired jsstring jsstring
  | MovieSuccess 'd
  | MovieFailure jsstring jsstring "jsstring option"

text \<open>
  The try block (lines 14 to 31). \<open>reqBody\<close> is \<open>req.body\<close>: \<open>None\<close> when no body was
  parsed, otherwise the fields of the object.
\<close>

definition scrapeMovieTry ::
  "engine \<Rightarrow> 'd movieEnv \<Rightarrow> scraper \<Rightarrow> (jsstring \<rightharpoonup> jsval) option \<Rightarrow>
   (exn + nat \<times> 'd movieBody) \<times> scraper \<times> trace" where
  "scrapeMovieTry eng env s reqBody =
     (case reqBody of
        None \<Rightarrow> (Inl (Error (destructureMessage eng)), s, [])
      | Some obj \<Rightarrow>
          (let imdbid = (case obj (js ''imdbid'') of None \<Rightarrow> JUndefined | Some v \<Rightarrow> v)
           in if \<not> truthy imdbid
              then (Inr (400, ImdbidRequired (js ''imdbid is required'') (js ''imdbid tt1234567'')),
                    s, [])
              else (case scrapeCompleteMovieData
                           (js ''https://www.imdb.com/title/'' @ toString imdbid @ js ''/'')
                           env s of
                      (Inl e, s1, tr) \<Rightarrow> (Inl e, s1, tr)
                    | (Inr movieData, s1, tr) \<Rightarrow> (Inr (200, MovieSuccess movieData), s1, tr))))"

definition scrapeMovie ::
  "engine \<Rightarrow> 'd movieEnv \<Rightarrow> scraper \<Rightarrow> (jsstring \<rightharpoonup> jsval) option \<Rightarrow>
   (nat \<times> 'd movieBody) \<times> scraper \<times> trace" where
  "scrapeMovie eng env s reqBody =
     (case scrapeMovieTry eng env s reqBody of
        (Inr response, s1, tr) \<Rightarrow> (response, s1, tr)
      | (Inl error, s1, tr) \<Rightarrow>
          ((500,
            MovieFailure (js ''Failed to scrape movie data'') (message error)
              (if nodeEnv eng = Some (js ''development'') then Some (stackOf eng error)
               else None)),
           s1, tr))"

subsection \<open>scrapeTrendingMovies\<close>

text \<open>
  \<open>TrendingSuccess d n t\<close> is \<open>{success: true, data: d, count: n, type: t, scrapedAt}\<close>,
  \<open>TrendingFailure e m\<close> is \<open>{error: e, message: m}\<close>.
\<close>

datatype 'm trendingBody =
    TrendingSuccess "'m list" nat jsstring
  | TrendingFailure jsstring jsstring

text \<open>The filter callback of lines 72 to 84.\<close>

definition isValid :: "'a movie_scheme \<Rightarrow> bool" where
  "isValid m = (title m \<noteq> [] \<and> trim (title m) \<noteq> [])"

text \<open>
  Lines 57 to 98, from the value the scraper call gave (\<open>Inl\<close> if it threw) to a
  response or a thrown error.
\<close>

definition trendingChecks ::
  "exn + 'a movie_scheme jsarray \<Rightarrow> exn + nat \<times> 'a movie_scheme trendingBody" where
  "trendingChecks scraped =
     (case scraped of
        Inl e \<Rightarrow> Inl e
      | Inr Nullish \<Rightarrow> Inl (ApiError 500 (js ''Scraper returned no data''))
      | Inr NotArray \<Rightarrow> Inl (ApiError 500 (js ''Scraper returned invalid data format''))
      | Inr (Array movieList) \<Rightarrow>
          if length movieList = 0
          then Inl (ApiError 500 (js ''No trending movies found on IMDb''))
          else (let validMovies = filter isValid movieList
                in if length validMovies = 0
                   then Inl (ApiError 500 (js ''No valid trending movies data found''))
                   else Inr (200, TrendingSuccess validMovies (length validMovies)
                                    (js ''trending''))))"

text \<open>The response for a given outcome of the scraper call (lines 57 to 105).\<close>

definition trendingResponse ::
  "exn + 'a movie_scheme jsarray \<Rightarrow> nat \<times> 'a movie_scheme trendingBody" where
  "trendingResponse scraped =
     (case trendingChecks scraped of
        Inr response \<Rightarrow> response
      | Inl error \<Rightarrow>
          (500, TrendingFailure (js ''Failed to scrape trending movies'') (message error)))"

definition trendingLink :: jsstring where
  "trendingLink = js ''https://www.imdb.com/list/ls082250769/''"

text \<open>The endpoint: the scraper call, whose result is an array, and the checks.\<close>

definition scrapeTrendingMovies ::
  "'a movie_scheme trendingEnv \<Rightarrow> scraper \<Rightarrow>
   (nat \<times> 'a movie_scheme trendingBody) \<times> scraper \<times> trace" where
  "scrapeTrendingMovies env s =
     (case scrapeTrending trendingLink env s of
        (Inl e, s1, tr) \<Rightarrow> (trendingResponse (Inl e), s1, tr)
      | (Inr movieList, s1, tr) \<Rightarrow> (trendingResponse (Inr (Array movieList)), s1, tr))"

section \<open>The gateway client (class ScraperAPIService)\<close>

text \<open>
  \<open>scrapeUrl\<close>, from the outcome of the \<open>axios.get\<close> call: the body on success, a new
  error that wraps the message otherwise (lines 41 to 67).
\<close>

definition scrapeUrl :: "exn + jsstring \<Rightarrow> exn + jsstring" where
  "scrapeUrl response =
     (case response of
        Inr body \<Rightarrow> Inr body
      | Inl error \<Rightarrow> Inl (Error (js ''Failed to scrape URL: '' @ message error)))"

text \<open>The requests sent and the waits of \<open>scrapeWithRetry\<close>, in milliseconds.\<close>

datatype fetchEvent = Request nat | Delay nat

text \<open>
  The loop of \<open>scrapeWithRetry\<close> (lines 77 to 94), entered with \<open>attempt\<close> and
  \<open>lastError\<close>; \<open>gateway attempt\<close> is the outcome of the request of that attempt.
  \<open>lastError\<close> is \<open>None\<close> while unassigned, and \<open>throw lastError\<close> then throws
  \<open>undefined\<close>.
\<close>

function retryLoop ::
  "(nat \<Rightarrow> exn + jsstring) \<Rightarrow> nat \<Rightarrow> nat \<Rightarrow> exn option \<Rightarrow>
   (exn option + jsstring) \<times> fetchEvent list" where
  "retryLoop gateway maxRetries attempt lastError =
     (if attempt \<le> maxRetries then
        (case scrapeUrl (gateway attempt) of
           Inr html \<Rightarrow> (Inr html, [Request attempt])
         | Inl error \<Rightarrow>
             (case retryLoop gateway maxRetries (Suc attempt) (Some error) of
                (r, tr) \<Rightarrow>
                  (r, Request attempt #
                      (if attempt < maxRetries then [Delay (2 ^ attempt * 1000)] else []) @ tr)))
      else (Inl lastError, []))"
  by pat_completeness auto
termination
  by (relation "measure (\<lambda>(gateway, maxRetries, attempt, lastError). Suc maxRetries - attempt)")
     auto

declare retryLoop.simps [simp del]

definition scrapeWithRetry ::
  "(nat \<Rightarrow> exn + jsstring) \<Rightarrow> nat \<Rightarrow> (exn option + jsstring) \<times> fetchEvent list" where
  "scrapeWithRetry gateway maxRetries = retryLoop gateway maxRetries 1 None"

section \<open>Notions used to state the properties\<close>

text \<open>The three parts of what a method of the scraper gives back.\<close>

definition outcome :: "'r \<times> scraper \<times> trace \<Rightarrow> 'r" where
  "outcome r = fst r"

definition finalState :: "'r \<times> scraper \<times> trace \<Rightarrow> scraper" where
  "finalState r = fst (snd r)"

definition events :: "'r \<times> scraper \<times> trace \<Rightarrow> trace" where
  "events r = snd (snd r)"

text \<open>The fields of a new \<open>Scraper\<close> object (lines 4 and 5).\<close>

definition newScraper :: scraper where
  "newScraper = \<lparr>browser = None, page = None\<rparr>"

text \<open>The state invariant: a page is held only together with a browser.\<close>

definition sessionInv :: "scraper \<Rightarrow> bool" where
  "sessionInv s = (page s \<noteq> None \<longrightarrow> browser s \<noteq> None)"

text \<open>
  A method keeps the invariant when it holds in the state the method leaves and in every
  state recorded in its trace.
\<close>

definition keepsInv :: "'r \<times> scraper \<times> trace \<Rightarrow> bool" where
  "keepsInv r = (sessionInv (finalState r) \<and> list_all (\<lambda>(e, st). sessionInv st) (events r))"



text \<open>The launches of a trace and the numbers of the strategies it warns about.\<close>

fun launchOf :: "event \<times> scraper \<Rightarrow> launchOptions list" where
  "launchOf (Launch opts, _) = [opts]"
| "launchOf _ = []"

definition launches :: "trace \<Rightarrow> launchOptions list" where
  "launches tr = concat (map launchOf tr)"

fun warningOf :: "event \<times> scraper \<Rightarrow> nat list" where
  "warningOf (WarnStrategyFailed k, _) = [k]"
| "warningOf _ = []"

definition strategyWarnings :: "trace \<Rightarrow> nat list" where
  "strategyWarnings tr = concat (map warningOf tr)"

text \<open>
  The requests and waits of \<open>scrapeWithRetry\<close> from attempt \<open>a\<close> to attempt \<open>j\<close>, when
  every attempt before \<open>j\<close> fails: after the failed attempt \<open>k\<close> the wait is \<open>2 ^ k\<close>
  seconds.
\<close>

definition backoff :: "nat \<Rightarrow> nat \<Rightarrow> fetchEvent list" where
  "backoff a j = concat (map (\<lambda>k. [Request k, Delay (2 ^ k * 1000)]) [a..<j]) @ [Request j]"

text \<open>
  The same with the waits the specification names: 1, 2, 4, ... seconds, that is
  \<open>2 ^ (k - 1)\<close> seconds after the failed attempt \<open>k\<close>.
\<close>

definition specBackoff :: "nat \<Rightarrow> nat \<Rightarrow> fetchEvent list" where
  "specBackoff a j =
     concat (map (\<lambda>k. [Request k, Delay (2 ^ (k - 1) * 1000)]) [a..<j]) @ [Request j]"

section \<open>Example inputs\<close>

definition pngImg :: img where
  "pngImg = \<lparr>srcsetAttr = None, srcAttr = None, srcProp = js ''https://m.media-amazon.com/p.png''\<rparr>"

definition jpgImg :: img where
  "jpgImg = \<lparr>srcsetAttr = None, srcAttr = None, srcProp = js ''https://m.media-amazon.com/p.jpg''\<rparr>"

text \<open>
  A document in which the first fallback selector finds a \<open>.jpg\<close> image and the second a
  \<open>.png\<close> image.
\<close>

definition fallbackDom :: dom where
  "fallbackDom =
     \<lparr>querySelector =
        (\<lambda>sel. if sel = js ''img[src*=\"amazon.com\"][src*=\"MV5B\"]'' then Some jpgImg
               else if sel = js ''img[alt*=\"poster\" i]'' then Some pngImg
               else None),
      querySelectorAll = (\<lambda>sel. [])\<rparr>"

text \<open>A page on which the wait for the poster element times out.\<close>

definition fallbackEnv :: posterEnv where
  "fallbackEnv =
     \<lparr>waitForPoster = Inl (Error (js ''timeout'')), evaluatePoster = Inr (),
      evaluateFallback = Inr (), document = fallbackDom\<rparr>"

definition loadedScraper :: scraper where
  "loadedScraper = \<lparr>browser = Some 1, page = Some 2\<rparr>"

text \<open>A world in which every call succeeds.\<close>

definition okWorld :: world where
  "okWorld =
     \<lparr>launch = (\<lambda>opts. Inr 1), newPage = Inr 2, setUserAgent = Inr (), setViewport = Inr (),
      goto = (\<lambda>t. Inr ()), browserClose = Inr ()\<rparr>"

text \<open>
  A world in which only the system Chrome binary launches, and the direct load fails.
\<close>

definition systemChromeWorld :: world where
  "systemChromeWorld =
     \<lparr>launch = (\<lambda>opts. if opts = SystemChrome then Inr 7
                        else Inl (Error (js ''Could not find Chrome''))),
      newPage = Inr 8, setUserAgent = Inr (), setViewport = Inr (),
      goto = (\<lambda>t. case t of Direct l \<Rightarrow> Inl (Error (js ''net::ERR_TIMED_OUT''))
                     | ViaScraperApi l \<Rightarrow> Inr ()),
      browserClose = Inr ()\<rparr>"

text \<open>A world in which nothing launches and teardown fails.\<close>

definition deadWorld :: world where
  "deadWorld =
     \<lparr>launch = (\<lambda>opts. Inl (Error (js ''Could not find Chrome''))),
      newPage = Inl (Error (js ''closed'')), setUserAgent = Inr (), setViewport = Inr (),
      goto = (\<lambda>t. Inl (Error (js ''closed''))), browserClose = Inl (Error (js ''closed''))\<rparr>"

text \<open>Four raw items: a good one, a missing identifier, a blank title, a good one.\<close>

definition rawItems :: "movie list" where
  "rawItems =
     [\<lparr>imdbId = js ''tt0111161'', title = js ''1. The Shawshank Redemption''\<rparr>,
      \<lparr>imdbId = [], title = js ''3. The Dark Knight''\<rparr>,
      \<lparr>imdbId = js ''tt0068646'', title = js ''   ''\<rparr>,
      \<lparr>imdbId = js ''tt0050083'', title = js ''4. 12 Angry Men''\<rparr>]"

text \<open>A trending page that loads and gives the four items.\<close>

definition listEnv :: "movie trendingEnv" where
  "listEnv =
     \<lparr>trendingSessions = (\<lambda>attempt. okWorld), waitForList = Inr (),
      evalList = Inr (Array rawItems), closeAfterList = Inr (), closeOnListError = Inr ()\<rparr>"

text \<open>A trending page on which the wait for the list times out and teardown fails.\<close>

definition timeoutEnv :: "movie trendingEnv" where
  "timeoutEnv =
     \<lparr>trendingSessions = (\<lambda>attempt. okWorld),
      waitForList = Inl (Error (js ''Waiting for selector failed'')),
      evalList = Inr (Array rawItems), closeAfterList = Inr (),
      closeOnListError = Inl (Error (js ''closed''))\<rparr>"

text \<open>
  Collected sources; the extension says where a source was found (1: a native
  \<open>video\<close> element, 2: a player-library element).
\<close>

definition nativeSources :: "nat videoSource_scheme list" where
  "nativeSources =
     [\<lparr>src = js ''https://v.example/a.mp4'', \<dots> = 1\<rparr>,
      \<lparr>src = js ''https://v.example/b.mp4'', \<dots> = 1\<rparr>,
      \<lparr>src = js ''https://v.example/a.mp4'', \<dots> = 1\<rparr>]"

definition playerSources :: "nat videoSource_scheme list" where
  "playerSources =
     [\<lparr>src = js ''https://v.example/b.mp4'', \<dots> = 2\<rparr>,
      \<lparr>src = js ''https://v.example/c.mp4'', \<dots> = 2\<rparr>]"

text \<open>A gateway that rejects every request.\<close>

definition deadGateway :: "nat \<Rightarrow> exn + jsstring" where
  "deadGateway attempt = Inl (Error (js ''timeout''))"




text \<open>A world in which every call succeeds, with a browser and a page of its own.\<close>

definition secondWorld :: world where
  "secondWorld =
     \<lparr>launch = (\<lambda>opts. Inr 7), newPage = Inr 8, setUserAgent = Inr (), setViewport = Inr (),
      goto = (\<lambda>t. Inr ()), browserClose = Inr ()\<rparr>"

text \<open>
  Two requests that overlap: the first is an attempt of \<open>startWithRetry\<close>, the second
  a \<open>close\<close> at the end of an earlier scrape. The \<open>close\<close> is suspended in the
  teardown; the attempt launches, stores its browser and is suspended in \<open>newPage\<close>;
  the \<open>close\<close> goes on and clears both fields; the attempt goes on and stores its page.
\<close>

definition overlap :: "turn list" where
  "overlap = [Second, First, First, Second, First]"

definition someEngine :: engine where
  "someEngine =
     \<lparr>nodeEnv = Some (js ''production''), stackOf = (\<lambda>e. js ''stack''),
      destructureMessage = js ''Cannot destructure property imdbid''\<rparr>"

definition someMovieEnv :: "nat movieEnv" where
  "someMovieEnv =
     \<lparr>movieSessions = (\<lambda>attempt. okWorld), extracted = 0,
      closeAfterMovie = Inr (), closeOnMovieError = Inr ()\<rparr>"

section \<open>Evaluation on literals\<close>

text \<open>
  Rules that unfold the string functions only on arguments that are written out, for the
  evaluation of the examples.
\<close>

named_theorems js_eval

lemma js_Nil [js_eval]: "js [] = []"
  by (simp add: js_def)

lemma js_Cons [js_eval]: "js (c # cs) = of_char c # js cs"
  by (simp add: js_def)

lemmas isWhiteSpace_numeral [js_eval] = isWhiteSpace_def [of "numeral k" for k]

lemmas digitValue_numeral [js_eval] = digitValue_def [of _ "numeral k" for k]

lemmas trim_Cons [js_eval] = trim_def [of "c # cs" for c cs]

lemmas trimStart_Cons [js_eval] = trimStart_def [of "c # cs" for c cs]

lemmas digitsValue_Cons [js_eval] = digitsValue_def [of _ "c # cs" for c cs]

lemmas parseInt_Cons [js_eval] = parseInt_def [of "c # cs" for c cs]

lemmas parseEntry_Cons [js_eval] = parseEntry_def [of "c # cs" for c cs]

section \<open>Poster fallback\<close>

lemma fallbackLoop_Some:
  "fallbackLoop d sels = Some u \<Longrightarrow> startsWith u (js ''http'') \<and> \<not> endsWith u (js ''.jpg'')"
  by (induction sels) (auto split: option.splits if_splits)

lemma fallbackLoop_all_jpg:
  "\<forall>sel\<in>set sels. \<forall>i. querySelector d sel = Some i \<longrightarrow> endsWith (srcProp i) (js ''.jpg'')
   \<Longrightarrow> fallbackLoop d sels = None"
  by (induction sels) (auto split: option.splits)

text \<open>
  C10. In the catch path of \<open>scrapePoster\<close> (the try block threw), a URL that is returned
  starts with \<open>http\<close> and does not end with \<open>.jpg\<close>; when every image the fallback
  selectors match has a \<open>src\<close> ending in \<open>.jpg\<close>, the result is \<open>null\<close>.
\<close>

theorem scrapePoster_fallback_never_jpg:
  assumes "page s \<noteq> None" and "posterTry env = Inl e"
  shows "(\<forall>u. scrapePoster env s = Inr (Some u) \<longrightarrow>
              startsWith u (js ''http'') \<and> \<not> endsWith u (js ''.jpg'')) \<and>
         ((\<forall>sel\<in>set fallbackSelectors. \<forall>i. querySelector (document env) sel = Some i \<longrightarrow>
              endsWith (srcProp i) (js ''.jpg'')) \<longrightarrow>
          scrapePoster env s = Inr None)"
proof -
  from assms have sp: "scrapePoster env s = posterCatch env"
    by (auto simp: scrapePoster_def)
  have "startsWith u (js ''http'') \<and> \<not> endsWith u (js ''.jpg'')"
    if "posterCatch env = Inr (Some u)" for u
    using that fallbackLoop_Some [of "document env" fallbackSelectors u]
    by (auto simp: posterCatch_def fallbackCallback_def split: sum.splits)
  moreover have "posterCatch env = Inr None"
    if "\<forall>sel\<in>set fallbackSelectors. \<forall>i. querySelector (document env) sel = Some i \<longrightarrow>
          endsWith (srcProp i) (js ''.jpg'')"
    using fallbackLoop_all_jpg [OF that]
    by (auto simp: posterCatch_def fallbackCallback_def split: sum.splits)
  ultimately show ?thesis
    unfolding sp by blast
qed

lemma fallbackEnv_try: "posterTry fallbackEnv = Inl (Error (js ''timeout''))"
  by (simp add: posterTry_def fallbackEnv_def)

lemma fallbackDom_callback:
  "fallbackCallback fallbackDom = Some (js ''https://m.media-amazon.com/p.png'')"
  by (simp add: fallbackCallback_def fallbackSelectors_def fallbackDom_def
      pngImg_def jpgImg_def startsWith_def endsWith_def js_eval)

lemma fallbackEnv_catch:
  "posterCatch fallbackEnv = Inr (Some (js ''https://m.media-amazon.com/p.png''))"
  by (simp add: posterCatch_def fallbackEnv_def fallbackDom_callback)

lemma fallbackEnv_result:
  "scrapePoster fallbackEnv loadedScraper = Inr (Some (js ''https://m.media-amazon.com/p.png''))"
  by (simp add: scrapePoster_def loadedScraper_def fallbackEnv_try fallbackEnv_catch)

theorem scrapePoster_fallback_never_jpg_witness:
  "page loadedScraper \<noteq> None \<and> posterTry fallbackEnv = Inl (Error (js ''timeout'')) \<and>
   scrapePoster fallbackEnv loadedScraper = Inr (Some (js ''https://m.media-amazon.com/p.png'')) \<and>
   startsWith (js ''https://m.media-amazon.com/p.png'') (js ''http'') \<and>
   \<not> endsWith (js ''https://m.media-amazon.com/p.png'') (js ''.jpg'')"
proof -
  have p: "page loadedScraper \<noteq> None"
    by (simp add: loadedScraper_def)
  from scrapePoster_fallback_never_jpg [OF p fallbackEnv_try] fallbackEnv_result p fallbackEnv_try
  show ?thesis by blast
qed

section \<open>The session\<close>

subsection \<open>close\<close>

lemma close_no_browser: "browser s = None \<Longrightarrow> close t s = (Inr (), s, [])"
  by (simp add: close_def closeTry_def)

lemma close_teardown_ok:
  "browser s = Some b \<Longrightarrow> close (Inr u) s = (Inr (), s\<lparr>browser := None, page := None\<rparr>, [(BrowserClose b, s)])"
  by (simp add: close_def closeTry_def)

lemma close_teardown_fails:
  "browser s = Some b \<Longrightarrow> close (Inl e) s = (Inr (), s, [(BrowserClose b, s)])"
  by (simp add: close_def closeTry_def)

lemma close_outcome: "fst (close t s) = Inr ()"
  by (cases "browser s"; cases t) (simp_all add: close_no_browser close_teardown_ok close_teardown_fails)

lemma close_cases:
  obtains s' tr where "close t s = (Inr (), s', tr)"
  using close_outcome [of t s] by (cases "close t s") auto

text \<open>
  C6. \<open>close\<close> never throws, whatever the teardown does. On a session whose browser is
  \<open>null\<close> it changes nothing and calls nothing. After a \<open>close\<close> whose teardown
  succeeded the browser is \<open>null\<close>, so a second \<open>close\<close> is such a call.
\<close>

theorem close_idempotent_total:
  "outcome (close t s) = Inr () \<and>
   (browser s = None \<longrightarrow> close t s = (Inr (), s, [])) \<and>
   browser (finalState (close (Inr ()) s)) = None \<and>
   close t (finalState (close (Inr ()) s)) = (Inr (), finalState (close (Inr ()) s), [])"
proof -
  have b: "browser (finalState (close (Inr ()) s)) = None"
    by (cases "browser s") (simp_all add: finalState_def close_no_browser close_teardown_ok)
  show ?thesis
    using b close_no_browser [OF b] close_no_browser [of s t] close_outcome [of t s]
    by (simp add: outcome_def)
qed

theorem close_idempotent_total_witness:
  "browser newScraper = None \<and> close (Inl (Error (js ''closed''))) newScraper = (Inr (), newScraper, []) \<and>
   finalState (close (Inr ()) loadedScraper) = newScraper \<and>
   close (Inl (Error (js ''closed''))) (finalState (close (Inr ()) loadedScraper)) = (Inr (), newScraper, [])"
proof -
  have f: "finalState (close (Inr ()) loadedScraper) = newScraper"
    by (simp add: finalState_def close_def closeTry_def loadedScraper_def newScraper_def)
  have n: "browser newScraper = None"
    by (simp add: newScraper_def)
  from close_idempotent_total [of "Inl (Error (js ''closed''))" newScraper] n
  have "close (Inl (Error (js ''closed''))) newScraper = (Inr (), newScraper, [])"
    by blast
  with f n show ?thesis by simp
qed

subsection \<open>The attempt loop, case by case\<close>

lemma attemptLoop_exhausted:
  "\<not> attempt \<le> maxRetries \<Longrightarrow>
   attemptLoop link maxRetries ws attempt lastError s =
     (Inl (startFailure maxRetries lastError), s, [])"
  by (subst attemptLoop.simps) simp

lemma attemptLoop_success:
  "attempt \<le> maxRetries \<Longrightarrow> attemptTry link (ws attempt) s = (Inr u, s1, tr) \<Longrightarrow>
   attemptLoop link maxRetries ws attempt lastError s = (Inr (), s1, tr)"
  by (subst attemptLoop.simps) simp

lemma attemptLoop_last:
  "attemptTry link (ws maxRetries) s = (Inl error, s1, tr) \<Longrightarrow>
   close (browserClose (ws maxRetries)) s1 = (Inr u, s2, trc) \<Longrightarrow>
   attemptLoop link maxRetries ws maxRetries lastError s =
     (Inl (startFailure maxRetries (Some error)), s2, tr @ trc)"
  by (subst attemptLoop.simps) simp

lemma attemptLoop_retry:
  "attempt < maxRetries \<Longrightarrow> attemptTry link (ws attempt) s = (Inl error, s1, tr) \<Longrightarrow>
   close (browserClose (ws attempt)) s1 = (Inr u, s2, trc) \<Longrightarrow>
   attemptLoop link maxRetries ws attempt lastError s =
     (case attemptLoop link maxRetries ws (Suc attempt) (Some error) s2 of
        (r, s3, tr3) \<Rightarrow> (r, s3, tr @ trc @ [(Sleep (2000 * attempt), s2)] @ tr3))"
  by (subst attemptLoop.simps) simp

subsection \<open>The invariant, method by method\<close>

lemma keepsInv_triple:
  "keepsInv (r, s', tr) = (sessionInv s' \<and> list_all (\<lambda>(e, st). sessionInv st) tr)"
  by (simp add: keepsInv_def finalState_def events_def)

lemma close_keeps: "sessionInv s \<Longrightarrow> keepsInv (close t s)"
  by (cases "browser s"; cases t)
     (simp_all add: close_no_browser close_teardown_ok close_teardown_fails keepsInv_triple
        sessionInv_def)

lemma pageSetup_trace:
  "sessionInv s \<Longrightarrow> list_all (\<lambda>(e, st). sessionInv st) (snd (pageSetup w p s))"
  by (simp add: pageSetup_def split: sum.splits)

lemma navigate_trace:
  "sessionInv s \<Longrightarrow> list_all (\<lambda>(e, st). sessionInv st) (snd (navigate link w p s))"
  by (simp add: navigate_def split: sum.splits)

lemma startLaunch_trace:
  "sessionInv s \<Longrightarrow> list_all (\<lambda>(e, st). sessionInv st) (snd (startLaunch w s))"
  by (simp add: startLaunch_def split: sum.splits)

lemma startTry_keeps:
  assumes "sessionInv s"
  shows "keepsInv (startTry link w s)"
proof (cases "startLaunch w s")
  case (Pair r tr1)
  have t1: "list_all (\<lambda>(e, st). sessionInv st) tr1"
    using startLaunch_trace [OF assms, of w] Pair by simp
  show ?thesis
  proof (cases r)
    case (Inl e)
    with Pair t1 assms show ?thesis
      by (simp add: startTry_def keepsInv_triple)
  next
    case (Inr b)
    let ?s1 = "s\<lparr>browser := Some b\<rparr>"
    have i1: "sessionInv ?s1"
      by (simp add: sessionInv_def)
    show ?thesis
    proof (cases "newPage w")
      case (Inl e)
      with Pair Inr t1 i1 show ?thesis
        by (simp add: startTry_def keepsInv_triple Let_def)
    next
      case np: (Inr p)
      let ?s2 = "?s1\<lparr>page := Some p\<rparr>"
      have i2: "sessionInv ?s2"
        by (simp add: sessionInv_def)
      obtain r2 tr2 where ps: "pageSetup w p ?s2 = (r2, tr2)"
        by (cases "pageSetup w p ?s2")
      have t2: "list_all (\<lambda>(e, st). sessionInv st) tr2"
        using pageSetup_trace [OF i2, of w p] ps by simp
      from Pair Inr np ps t1 t2 i1 i2 show ?thesis
        by (cases r2; cases "goto w (ViaScraperApi link)")
           (simp_all add: startTry_def keepsInv_triple Let_def)
    qed
  qed
qed

lemma start_keeps:
  assumes "sessionInv s"
  shows "keepsInv (start link w s)"
proof -
  obtain r s1 tr where st: "startTry link w s = (r, s1, tr)"
    by (cases "startTry link w s")
  with startTry_keeps [OF assms, of link w]
  have i1: "sessionInv s1" and t1: "list_all (\<lambda>(e, st). sessionInv st) tr"
    by (simp_all add: keepsInv_triple)
  obtain s2 trc where cl: "close (browserClose w) s1 = (Inr (), s2, trc)"
    by (rule close_cases)
  with close_keeps [OF i1, of "browserClose w"]
  have "sessionInv s2" and "list_all (\<lambda>(e, st). sessionInv st) trc"
    by (simp_all add: keepsInv_triple)
  with st cl i1 t1 show ?thesis
    by (cases r) (simp_all add: start_def keepsInv_triple)
qed

lemma tryStrategies_keeps:
  "sessionInv s \<Longrightarrow> tryStrategies w k strs s = (launched, s', tr) \<Longrightarrow>
   sessionInv s' \<and> list_all (\<lambda>(e, st). sessionInv st) tr \<and> (launched \<longrightarrow> browser s' \<noteq> None)"
proof (induction strs arbitrary: k launched s' tr)
  case Nil
  then show ?case by simp
next
  case (Cons strategy rest)
  show ?case
  proof (cases "launch w strategy")
    case (Inr b)
    with Cons.prems show ?thesis
      by (auto simp: sessionInv_def)
  next
    case (Inl e)
    obtain l2 s2 tr2 where rec: "tryStrategies w (Suc k) rest s = (l2, s2, tr2)"
      by (cases "tryStrategies w (Suc k) rest s")
    from Cons.IH [OF Cons.prems(1) rec] Cons.prems Inl rec show ?thesis
      by auto
  qed
qed

lemma afterLaunch_keeps:
  assumes "sessionInv s1" and "list_all (\<lambda>(e, st). sessionInv st) tr1"
  shows "keepsInv (afterLaunch link w launched s1 tr1)"
proof (cases "launched \<and> browser s1 \<noteq> None")
  case False
  with assms show ?thesis
    by (auto simp: afterLaunch_def keepsInv_triple)
next
  case True
  then obtain b where b: "browser s1 = Some b" and l: launched
    by auto
  show ?thesis
  proof (cases "newPage w")
    case (Inl e)
    with b l assms show ?thesis
      by (simp add: afterLaunch_def keepsInv_triple)
  next
    case np: (Inr p)
    let ?s2 = "s1\<lparr>page := Some p\<rparr>"
    have i2: "sessionInv ?s2"
      using b by (simp add: sessionInv_def)
    obtain r2 tr2 where ps: "pageSetup w p ?s2 = (r2, tr2)"
      by (cases "pageSetup w p ?s2")
    have t2: "list_all (\<lambda>(e, st). sessionInv st) tr2"
      using pageSetup_trace [OF i2, of w p] ps by simp
    obtain r3 tr3 where nv: "navigate link w p ?s2 = (r3, tr3)"
      by (cases "navigate link w p ?s2")
    have t3: "list_all (\<lambda>(e, st). sessionInv st) tr3"
      using navigate_trace [OF i2, of link w p] nv by simp
    from b l np ps nv t2 t3 i2 assms show ?thesis
      by (cases r2) (simp_all add: afterLaunch_def keepsInv_triple Let_def)
  qed
qed

lemma attemptTry_keeps:
  assumes "sessionInv s"
  shows "keepsInv (attemptTry link w s)"
proof -
  obtain launched s1 tr1 where ts: "tryStrategies w 1 strategies s = (launched, s1, tr1)"
    by (cases "tryStrategies w 1 strategies s")
  from tryStrategies_keeps [OF assms ts] afterLaunch_keeps [of s1 tr1 link w launched] ts
  show ?thesis
    by (simp add: attemptTry_def)
qed

lemma attemptLoop_keeps:
  "sessionInv s \<Longrightarrow> keepsInv (attemptLoop link maxRetries ws attempt lastError s)"
proof (induction "Suc maxRetries - attempt" arbitrary: attempt lastError s)
  case 0
  then have "\<not> attempt \<le> maxRetries"
    by simp
  with 0 show ?case
    by (simp add: attemptLoop_exhausted keepsInv_triple)
next
  case (Suc n)
  then have le: "attempt \<le> maxRetries"
    by simp
  obtain r s1 tr where at: "attemptTry link (ws attempt) s = (r, s1, tr)"
    by (cases "attemptTry link (ws attempt) s")
  with attemptTry_keeps [OF Suc.prems, of link "ws attempt"]
  have i1: "sessionInv s1" and t1: "list_all (\<lambda>(e, st). sessionInv st) tr"
    by (simp_all add: keepsInv_triple)
  show ?case
  proof (cases r)
    case (Inr u)
    with at le i1 t1 show ?thesis
      by (simp add: attemptLoop_success keepsInv_triple)
  next
    case (Inl error)
    obtain s2 trc where cl: "close (browserClose (ws attempt)) s1 = (Inr (), s2, trc)"
      by (rule close_cases)
    with close_keeps [OF i1, of "browserClose (ws attempt)"]
    have i2: "sessionInv s2" and t2: "list_all (\<lambda>(e, st). sessionInv st) trc"
      by (simp_all add: keepsInv_triple)
    show ?thesis
    proof (cases "attempt = maxRetries")
      case True
      with at Inl cl i2 t1 t2 show ?thesis
        by (simp add: attemptLoop_last keepsInv_triple)
    next
      case False
      with le have lt: "attempt < maxRetries"
        by simp
      from Suc.hyps(2) have n: "n = Suc maxRetries - Suc attempt"
        by simp
      obtain r3 s3 tr3 where
        rec: "attemptLoop link maxRetries ws (Suc attempt) (Some error) s2 = (r3, s3, tr3)"
        by (cases "attemptLoop link maxRetries ws (Suc attempt) (Some error) s2")
      with Suc.hyps(1) [OF n i2, of "Some error"]
      have "sessionInv s3" and "list_all (\<lambda>(e, st). sessionInv st) tr3"
        by (simp_all add: keepsInv_triple)
      with at Inl cl lt rec i2 t1 t2 show ?thesis
        by (simp add: attemptLoop_retry keepsInv_triple)
    qed
  qed
qed

lemma startWithRetry_keeps:
  "sessionInv s \<Longrightarrow> keepsInv (startWithRetry link maxRetries ws s)"
  by (simp add: startWithRetry_def attemptLoop_keeps)

lemma scrapeCompleteMovieData_keeps:
  assumes "sessionInv s"
  shows "keepsInv (scrapeCompleteMovieData link env s)"
proof -
  obtain r s1 tr1 where sw: "startWithRetry link 3 (movieSessions env) s = (r, s1, tr1)"
    by (cases "startWithRetry link 3 (movieSessions env) s")
  with startWithRetry_keeps [OF assms, of link 3 "movieSessions env"]
  have i1: "sessionInv s1" and t1: "list_all (\<lambda>(e, st). sessionInv st) tr1"
    by (simp_all add: keepsInv_triple)
  obtain s2 trc where cl: "close (closeAfterMovie env) s1 = (Inr (), s2, trc)"
    by (rule close_cases)
  with close_keeps [OF i1, of "closeAfterMovie env"]
  have "sessionInv s2" and "list_all (\<lambda>(e, st). sessionInv st) trc"
    by (simp_all add: keepsInv_triple)
  with sw cl i1 t1 show ?thesis
    by (cases r; cases "page s1") (simp_all add: scrapeCompleteMovieData_def keepsInv_triple)
qed

lemma trendingTry_keeps:
  assumes "sessionInv s"
  shows "keepsInv (trendingTry link env s)"
proof -
  obtain r s1 tr1 where sw: "startWithRetry link 3 (trendingSessions env) s = (r, s1, tr1)"
    by (cases "startWithRetry link 3 (trendingSessions env) s")
  with startWithRetry_keeps [OF assms, of link 3 "trendingSessions env"]
  have i1: "sessionInv s1" and t1: "list_all (\<lambda>(e, st). sessionInv st) tr1"
    by (simp_all add: keepsInv_triple)
  obtain s2 trc where cl: "close (closeAfterList env) s1 = (Inr (), s2, trc)"
    by (rule close_cases)
  with close_keeps [OF i1, of "closeAfterList env"]
  have "sessionInv s2" and "list_all (\<lambda>(e, st). sessionInv st) trc"
    by (simp_all add: keepsInv_triple)
  with sw cl i1 t1 show ?thesis
    by (cases r; cases "page s1"; cases "waitForList env"; cases "evalList env")
       (simp_all add: trendingTry_def keepsInv_triple)
qed

lemma scrapeTrending_keeps:
  assumes "sessionInv s"
  shows "keepsInv (scrapeTrending link env s)"
proof -
  obtain r s1 tr where tt: "trendingTry link env s = (r, s1, tr)"
    by (cases "trendingTry link env s")
  with trendingTry_keeps [OF assms, of link env]
  have i1: "sessionInv s1" and t1: "list_all (\<lambda>(e, st). sessionInv st) tr"
    by (simp_all add: keepsInv_triple)
  obtain s2 trc where cl: "close (closeOnListError env) s1 = (Inr (), s2, trc)"
    by (rule close_cases)
  with close_keeps [OF i1, of "closeOnListError env"]
  have "sessionInv s2" and "list_all (\<lambda>(e, st). sessionInv st) trc"
    by (simp_all add: keepsInv_triple)
  with tt cl i1 t1 show ?thesis
    by (cases r) (simp_all add: scrapeTrending_def keepsInv_triple)
qed

text \<open>
  C9 as amended. When the methods of a scraper run one after another, none of them
  between the call and the return of another: a new scraper satisfies the invariant (a
  page only together with a browser), and \<open>close\<close>, \<open>start\<close>, \<open>startWithRetry\<close> and
  the two scraping methods built on them keep it: from a state that satisfies it, it
  holds at every call they make and in the state they leave, whatever the automation
  library answers.
\<close>

theorem session_invariant:
  assumes "sessionInv s"
  shows "sessionInv newScraper \<and>
         keepsInv (close t s) \<and>
         keepsInv (start link w s) \<and>
         keepsInv (startWithRetry link maxRetries ws s) \<and>
         keepsInv (scrapeCompleteMovieData link menv s) \<and>
         keepsInv (scrapeTrending link tenv s)"
  using assms
  by (simp add: close_keeps start_keeps startWithRetry_keeps scrapeCompleteMovieData_keeps
      scrapeTrending_keeps)
     (simp add: newScraper_def sessionInv_def)

lemma start_okWorld:
  "start link okWorld newScraper =
     (Inr (), loadedScraper,
      [(Launch Configured, newScraper),
       (NewPage 1, \<lparr>browser = Some 1, page = None\<rparr>),
       (SetUserAgent 2, loadedScraper),
       (SetViewport 2, loadedScraper),
       (Goto 2 (ViaScraperApi link), loadedScraper),
       (Sleep 3000, loadedScraper)])"
  by (simp add: start_def startTry_def startLaunch_def pageSetup_def okWorld_def newScraper_def
      loadedScraper_def Let_def)

theorem session_invariant_witness:
  "sessionInv newScraper \<and>
   start (js ''https://www.imdb.com/title/tt1375666/'') okWorld newScraper =
     (Inr (), loadedScraper,
      [(Launch Configured, newScraper),
       (NewPage 1, \<lparr>browser = Some 1, page = None\<rparr>),
       (SetUserAgent 2, loadedScraper),
       (SetViewport 2, loadedScraper),
       (Goto 2 (ViaScraperApi (js ''https://www.imdb.com/title/tt1375666/'')), loadedScraper),
       (Sleep 3000, loadedScraper)]) \<and>
   keepsInv (start (js ''https://www.imdb.com/title/tt1375666/'') okWorld newScraper) \<and>
   keepsInv (close (Inl (Error (js ''closed''))) newScraper) \<and>
   keepsInv (startWithRetry (js ''https://www.imdb.com/title/tt1375666/'') 3 (\<lambda>attempt. deadWorld)
               newScraper) \<and>
   sessionInv loadedScraper \<and>
   close (Inl (Error (js ''closed''))) loadedScraper =
     (Inr (), loadedScraper, [(BrowserClose 1, loadedScraper)]) \<and>
   keepsInv (close (Inl (Error (js ''closed''))) loadedScraper) \<and>
   close (Inr ()) loadedScraper = (Inr (), newScraper, [(BrowserClose 1, loadedScraper)]) \<and>
   keepsInv (close (Inr ()) loadedScraper) \<and>
   keepsInv (startWithRetry (js ''https://www.imdb.com/title/tt1375666/'') 3
               (\<lambda>attempt. systemChromeWorld) loadedScraper) \<and>
   keepsInv (start (js ''https://www.imdb.com/title/tt1375666/'') deadWorld loadedScraper)"
proof -
  have i: "sessionInv newScraper"
    by (simp add: newScraper_def sessionInv_def)
  have l: "sessionInv loadedScraper"
    by (simp add: loadedScraper_def sessionInv_def)
  from session_invariant [OF i, of "Inl (Error (js ''closed''))"
      "js ''https://www.imdb.com/title/tt1375666/''" okWorld 3 "\<lambda>attempt. deadWorld"]
  have n: "keepsInv (start (js ''https://www.imdb.com/title/tt1375666/'') okWorld newScraper)"
    "keepsInv (close (Inl (Error (js ''closed''))) newScraper)"
    "keepsInv (startWithRetry (js ''https://www.imdb.com/title/tt1375666/'') 3
                     (\<lambda>attempt. deadWorld) newScraper)"
    by blast+
  from session_invariant [OF l, of "Inl (Error (js ''closed''))"
      "js ''https://www.imdb.com/title/tt1375666/''" deadWorld 3 "\<lambda>attempt. systemChromeWorld"]
  have m: "keepsInv (close (Inl (Error (js ''closed''))) loadedScraper)"
    "keepsInv (startWithRetry (js ''https://www.imdb.com/title/tt1375666/'') 3
                     (\<lambda>attempt. systemChromeWorld) loadedScraper)"
    "keepsInv (start (js ''https://www.imdb.com/title/tt1375666/'') deadWorld loadedScraper)"
    by blast+
  from session_invariant [OF l, of "Inr ()"]
  have k: "keepsInv (close (Inr ()) loadedScraper)"
    by blast
  have c1: "close (Inl (Error (js ''closed''))) loadedScraper =
      (Inr (), loadedScraper, [(BrowserClose 1, loadedScraper)])"
    by (simp add: close_def closeTry_def loadedScraper_def)
  have c2: "close (Inr ()) loadedScraper = (Inr (), newScraper, [(BrowserClose 1, loadedScraper)])"
    by (simp add: close_def closeTry_def loadedScraper_def newScraper_def)
  from i l n m k c1 c2 start_okWorld [of "js ''https://www.imdb.com/title/tt1375666/''"]
  show ?thesis
    by blast
qed

subsection \<open>A started session has a page\<close>

lemma afterLaunch_success:
  "afterLaunch link w launched s1 tr1 = (Inr u, s2, tr) \<Longrightarrow>
   page s2 \<noteq> None \<and> browser s2 = browser s1 \<and> browser s1 \<noteq> None \<and> launched"
  by (auto simp: afterLaunch_def Let_def split: if_splits option.splits sum.splits prod.splits)

lemma attemptTry_success:
  "attemptTry link w s = (Inr u, s2, tr) \<Longrightarrow> page s2 \<noteq> None \<and> browser s2 \<noteq> None"
  by (auto simp: attemptTry_def split: prod.splits dest!: afterLaunch_success)

lemma attemptLoop_success_page:
  "attemptLoop link maxRetries ws attempt lastError s = (Inr u, s', tr') \<Longrightarrow>
   page s' \<noteq> None \<and> browser s' \<noteq> None"
proof (induction "Suc maxRetries - attempt" arbitrary: attempt lastError s tr')
  case 0
  then have "\<not> attempt \<le> maxRetries"
    by simp
  with 0 show ?case
    by (simp add: attemptLoop_exhausted)
next
  case (Suc n)
  then have le: "attempt \<le> maxRetries"
    by simp
  obtain r s1 tr where at: "attemptTry link (ws attempt) s = (r, s1, tr)"
    by (cases "attemptTry link (ws attempt) s")
  show ?case
  proof (cases r)
    case (Inr v)
    with at le Suc.prems attemptTry_success [of link "ws attempt" s v s1 tr] show ?thesis
      by (simp add: attemptLoop_success)
  next
    case (Inl error)
    obtain s2 trc where cl: "close (browserClose (ws attempt)) s1 = (Inr (), s2, trc)"
      by (rule close_cases)
    show ?thesis
    proof (cases "attempt = maxRetries")
      case True
      with at Inl cl Suc.prems show ?thesis
        by (simp add: attemptLoop_last)
    next
      case False
      with le have lt: "attempt < maxRetries"
        by simp
      from Suc.hyps(2) have n: "n = Suc maxRetries - Suc attempt"
        by simp
      obtain r3 s3 tr3 where
        rec: "attemptLoop link maxRetries ws (Suc attempt) (Some error) s2 = (r3, s3, tr3)"
        by (cases "attemptLoop link maxRetries ws (Suc attempt) (Some error) s2")
      with at Inl cl lt Suc.prems have "r3 = Inr u" and "s3 = s'"
        by (simp_all add: attemptLoop_retry)
      with Suc.hyps(1) [OF n, of "Some error" s2 tr3] rec show ?thesis
        by simp
    qed
  qed
qed

lemma startWithRetry_success_page:
  "startWithRetry link maxRetries ws s = (Inr u, s', tr') \<Longrightarrow> page s' \<noteq> None"
  using attemptLoop_success_page [of link maxRetries ws 1 None s u s' tr']
  by (simp add: startWithRetry_def)

section \<open>Trending list\<close>

lemma trim_Nil: "trim [] = []"
  by (simp add: trim_def)

lemma startsWith_nonempty: "startsWith s (js ''tt'') \<Longrightarrow> s \<noteq> []"
  by (auto simp: startsWith_def js_eval)

lemma validMovie_iff:
  "validMovie m = (trim (title m) \<noteq> [] \<and> startsWith (imdbId m) (js ''tt''))"
  using startsWith_nonempty [of "imdbId m"] trim_Nil
  by (auto simp: validMovie_def)

lemma validateList_Array:
  "validateList (Array raw) =
     filter (\<lambda>m. trim (title m) \<noteq> [] \<and> startsWith (imdbId m) (js ''tt'')) raw"
proof -
  have "validMovie = (\<lambda>m::'a movie_scheme. trim (title m) \<noteq> [] \<and> startsWith (imdbId m) (js ''tt''))"
    by (rule ext) (rule validMovie_iff)
  then show ?thesis
    by (cases raw) (simp_all add: validateList_def)
qed

lemma trendingTry_loaded:
  assumes "startWithRetry link 3 (trendingSessions env) s = (Inr u, s1, tr1)"
    and "waitForList env = Inr v" and "evalList env = Inr movieList"
  shows "outcome (trendingTry link env s) = Inr (validateList movieList)"
proof -
  from startWithRetry_success_page [OF assms(1)] obtain p where p: "page s1 = Some p"
    by auto
  obtain s2 trc where cl: "close (closeAfterList env) s1 = (Inr (), s2, trc)"
    by (rule close_cases)
  with assms p show ?thesis
    by (simp add: trendingTry_def outcome_def)
qed

lemma scrapeTrending_outcome:
  "outcome (scrapeTrending link env s) =
     (case outcome (trendingTry link env s) of Inl e \<Rightarrow> Inr [] | Inr ms \<Rightarrow> Inr ms)"
proof -
  obtain r s1 tr where tt: "trendingTry link env s = (r, s1, tr)"
    by (cases "trendingTry link env s")
  obtain s2 trc where cl: "close (closeOnListError env) s1 = (Inr (), s2, trc)"
    by (rule close_cases)
  with tt show ?thesis
    by (cases r) (simp_all add: scrapeTrending_def outcome_def)
qed

text \<open>
  C2. When the session starts, the list selector appears and the in-page evaluation
  gives the array \<open>raw\<close>, \<open>scrapeTrending\<close> returns the items of \<open>raw\<close> whose title is
  not empty after trimming and whose identifier starts with \<open>tt\<close>: exactly those, in
  the order of \<open>raw\<close>.
\<close>

theorem scrapeTrending_keeps_valid_items:
  assumes "outcome (startWithRetry link 3 (trendingSessions env) s) = Inr ()"
    and "waitForList env = Inr ()" and "evalList env = Inr (Array raw)"
  shows "outcome (scrapeTrending link env s) =
           Inr (filter (\<lambda>m. trim (title m) \<noteq> [] \<and> startsWith (imdbId m) (js ''tt'')) raw) \<and>
         (\<forall>m. m \<in> set (filter (\<lambda>m. trim (title m) \<noteq> [] \<and> startsWith (imdbId m) (js ''tt'')) raw)
              \<longleftrightarrow> m \<in> set raw \<and> trim (title m) \<noteq> [] \<and> startsWith (imdbId m) (js ''tt'')) \<and>
         subseq (filter (\<lambda>m. trim (title m) \<noteq> [] \<and> startsWith (imdbId m) (js ''tt'')) raw) raw"
proof -
  obtain r s1 tr1 where sw: "startWithRetry link 3 (trendingSessions env) s = (r, s1, tr1)"
    by (cases "startWithRetry link 3 (trendingSessions env) s")
  with assms(1) have "startWithRetry link 3 (trendingSessions env) s = (Inr (), s1, tr1)"
    by (simp add: outcome_def)
  from trendingTry_loaded [OF this assms(2) assms(3)] show ?thesis
    by (simp add: scrapeTrending_outcome validateList_Array)
qed

lemma attemptTry_okWorld:
  "attemptTry link okWorld newScraper =
     (Inr (), loadedScraper,
      [(Launch Configured, newScraper),
       (NewPage 1, \<lparr>browser = Some 1, page = None\<rparr>),
       (SetUserAgent 2, loadedScraper),
       (SetViewport 2, loadedScraper),
       (Goto 2 (Direct link), loadedScraper),
       (Sleep 3000, loadedScraper)])"
  by (simp add: attemptTry_def strategies_def afterLaunch_def pageSetup_def navigate_def
      okWorld_def newScraper_def loadedScraper_def Let_def)

lemma startWithRetry_okWorld:
  "outcome (startWithRetry link 3 (\<lambda>attempt. okWorld) newScraper) = Inr ()"
  using attemptLoop_success [of 1 3 link "\<lambda>attempt. okWorld" newScraper, OF _ attemptTry_okWorld]
  by (simp add: startWithRetry_def outcome_def)

lemma rawItems_filtered:
  "filter (\<lambda>m. trim (title m) \<noteq> [] \<and> startsWith (imdbId m) (js ''tt'')) rawItems =
     [\<lparr>imdbId = js ''tt0111161'', title = js ''1. The Shawshank Redemption''\<rparr>,
      \<lparr>imdbId = js ''tt0050083'', title = js ''4. 12 Angry Men''\<rparr>]"
  by (simp add: rawItems_def trim_def isWhiteSpace_def startsWith_def js_eval)

theorem scrapeTrending_keeps_valid_items_witness:
  "outcome (startWithRetry trendingLink 3 (trendingSessions listEnv) newScraper) = Inr () \<and>
   waitForList listEnv = Inr () \<and> evalList listEnv = Inr (Array rawItems) \<and>
   outcome (scrapeTrending trendingLink listEnv newScraper) =
     Inr [\<lparr>imdbId = js ''tt0111161'', title = js ''1. The Shawshank Redemption''\<rparr>,
          \<lparr>imdbId = js ''tt0050083'', title = js ''4. 12 Angry Men''\<rparr>]"
proof -
  have a: "outcome (startWithRetry trendingLink 3 (trendingSessions listEnv) newScraper) = Inr ()"
    by (simp add: listEnv_def startWithRetry_okWorld)
  have b: "waitForList listEnv = Inr ()" and c: "evalList listEnv = Inr (Array rawItems)"
    by (simp_all add: listEnv_def)
  from scrapeTrending_keeps_valid_items [OF a b c] a b c show ?thesis
    by (simp only: rawItems_filtered)
qed

lemma trendingTry_failure:
  assumes "isl (outcome (startWithRetry link 3 (trendingSessions env) s)) \<or>
           isl (waitForList env) \<or> isl (evalList env)"
  shows "isl (outcome (trendingTry link env s))"
proof -
  obtain r s1 tr1 where sw: "startWithRetry link 3 (trendingSessions env) s = (r, s1, tr1)"
    by (cases "startWithRetry link 3 (trendingSessions env) s")
  obtain s2 trc where cl: "close (closeAfterList env) s1 = (Inr (), s2, trc)"
    by (rule close_cases)
  from assms sw cl show ?thesis
    by (cases r; cases "page s1"; cases "waitForList env"; cases "evalList env")
       (simp_all add: trendingTry_def outcome_def)
qed

lemma trendingTry_invalid:
  assumes "evalList env = Inr movieList" and "validateList movieList = []"
  shows "outcome (trendingTry link env s) = Inr [] \<or> isl (outcome (trendingTry link env s))"
proof -
  obtain r s1 tr1 where sw: "startWithRetry link 3 (trendingSessions env) s = (r, s1, tr1)"
    by (cases "startWithRetry link 3 (trendingSessions env) s")
  obtain s2 trc where cl: "close (closeAfterList env) s1 = (Inr (), s2, trc)"
    by (rule close_cases)
  from assms sw cl show ?thesis
    by (cases r; cases "page s1"; cases "waitForList env")
       (simp_all add: trendingTry_def outcome_def)
qed

lemma scrapeTrending_total: "\<exists>ms. outcome (scrapeTrending link env s) = Inr ms"
  by (cases "outcome (trendingTry link env s)") (simp_all add: scrapeTrending_outcome)

lemma scrapeTrending_failure:
  assumes "isl (outcome (startWithRetry link 3 (trendingSessions env) s)) \<or>
           isl (waitForList env) \<or> isl (evalList env) \<or>
           evalList env = Inr Nullish \<or> evalList env = Inr NotArray \<or>
           evalList env = Inr (Array [])"
  shows "outcome (scrapeTrending link env s) = Inr []"
proof (cases "isl (outcome (startWithRetry link 3 (trendingSessions env) s)) \<or>
           isl (waitForList env) \<or> isl (evalList env)")
  case True
  from trendingTry_failure [OF this] show ?thesis
    by (cases "outcome (trendingTry link env s)") (simp_all add: scrapeTrending_outcome)
next
  case False
  with assms obtain movieList where "evalList env = Inr movieList" and "validateList movieList = []"
    by (auto simp: validateList_def)
  from trendingTry_invalid [OF this, of link s] show ?thesis
    by (cases "outcome (trendingTry link env s)") (auto simp: scrapeTrending_outcome)
qed

lemma trendingResponse_empty:
  "filter isValid ms = [] \<Longrightarrow>
   trendingResponse (Inr (Array ms)) =
     (500, TrendingFailure (js ''Failed to scrape trending movies'')
             (if ms = [] then js ''No trending movies found on IMDb''
              else js ''No valid trending movies data found''))"
  by (simp add: trendingResponse_def trendingChecks_def)

lemma scrapeTrendingMovies_outcome:
  "outcome (scrapeTrendingMovies env s) =
     (case outcome (scrapeTrending trendingLink env s) of
        Inl e \<Rightarrow> trendingResponse (Inl e)
      | Inr ms \<Rightarrow> trendingResponse (Inr (Array ms)))"
  by (cases "scrapeTrending trendingLink env s" rule: prod_cases3)
     (simp add: scrapeTrendingMovies_def outcome_def split: sum.splits)

text \<open>
  C5. \<open>scrapeTrending\<close> always returns a sequence, and the empty one whenever the
  session fails to start, the wait for the list or the evaluation fails, or the evaluated
  value is not a non-empty array. The endpoint answers status 500 with the error
  \<open>Failed to scrape trending movies\<close> to every array in which its filter leaves nothing:
  with the message \<open>No trending movies found on IMDb\<close> for the empty array, which is what
  an empty result of \<open>scrapeTrending\<close> leads to, and \<open>No valid trending movies data
  found\<close> for an array of invalid items.
\<close>

theorem scrapeTrending_never_throws:
  "(\<exists>ms. outcome (scrapeTrending link env s) = Inr ms) \<and>
   (isl (outcome (startWithRetry link 3 (trendingSessions env) s)) \<or>
    isl (waitForList env) \<or> isl (evalList env) \<or>
    evalList env = Inr Nullish \<or> evalList env = Inr NotArray \<or> evalList env = Inr (Array [])
      \<longrightarrow> outcome (scrapeTrending link env s) = Inr []) \<and>
   (\<forall>ms :: 'a movie_scheme list. filter isValid ms = [] \<longrightarrow>
      trendingResponse (Inr (Array ms)) =
        (500, TrendingFailure (js ''Failed to scrape trending movies'')
                (if ms = [] then js ''No trending movies found on IMDb''
                 else js ''No valid trending movies data found''))) \<and>
   (outcome (scrapeTrending trendingLink env s) = Inr [] \<longrightarrow>
      outcome (scrapeTrendingMovies env s) =
        (500, TrendingFailure (js ''Failed to scrape trending movies'')
                (js ''No trending movies found on IMDb'')))"
  using scrapeTrending_total [of link env s] scrapeTrending_failure [of link env s]
  by (simp add: trendingResponse_empty scrapeTrendingMovies_outcome)

theorem scrapeTrending_never_throws_witness:
  "isl (waitForList timeoutEnv) \<and>
   outcome (scrapeTrending trendingLink timeoutEnv newScraper) = Inr [] \<and>
   outcome (scrapeTrendingMovies timeoutEnv newScraper) =
     (500, TrendingFailure (js ''Failed to scrape trending movies'')
             (js ''No trending movies found on IMDb''))"
proof -
  have w: "isl (waitForList timeoutEnv)"
    by (simp add: timeoutEnv_def)
  from scrapeTrending_never_throws [of trendingLink timeoutEnv newScraper] w show ?thesis
    by blast
qed

text \<open>
  Every item \<open>scrapeTrending\<close> returns passes the filter of the endpoint, so the
  endpoint never reaches its second message through the scraper.
\<close>

lemma validMovie_isValid: "validMovie m \<Longrightarrow> isValid m"
  by (simp add: validMovie_def isValid_def)

section \<open>The movie endpoint\<close>

text \<open>
  C7. When the body has no \<open>imdbid\<close> field, or a falsy one (\<open>null\<close>, \<open>false\<close>, \<open>0\<close>,
  the empty string), \<open>scrapeMovie\<close> answers status 400 with \<open>error\<close> and \<open>example\<close>;
  the scraper is left as it was and no call is made.
\<close>

theorem scrapeMovie_missing_imdbid:
  assumes "obj (js ''imdbid'') = None \<or> (\<exists>v. obj (js ''imdbid'') = Some v \<and> \<not> truthy v)"
  shows "scrapeMovie eng env s (Some obj) =
           ((400, ImdbidRequired (js ''imdbid is required'') (js ''imdbid tt1234567'')), s, [])"
  using assms by (auto simp: scrapeMovie_def scrapeMovieTry_def)

text \<open>Without a parsed body the destructuring throws, and the answer is status 500.\<close>

lemma scrapeMovie_no_body:
  "scrapeMovie eng env s None =
     ((500,
       MovieFailure (js ''Failed to scrape movie data'') (destructureMessage eng)
         (if nodeEnv eng = Some (js ''development'')
          then Some (stackOf eng (Error (destructureMessage eng))) else None)),
      s, [])"
  by (simp add: scrapeMovie_def scrapeMovieTry_def)

theorem scrapeMovie_missing_imdbid_witness:
  "Map.empty (js ''imdbid'') = None \<and>
   scrapeMovie someEngine someMovieEnv newScraper (Some Map.empty) =
     ((400, ImdbidRequired (js ''imdbid is required'') (js ''imdbid tt1234567'')), newScraper, []) \<and>
   \<not> truthy (JStr []) \<and>
   scrapeMovie someEngine someMovieEnv newScraper (Some [js ''imdbid'' \<mapsto> JStr []]) =
     ((400, ImdbidRequired (js ''imdbid is required'') (js ''imdbid tt1234567'')), newScraper, [])"
proof -
  have a: "Map.empty (js ''imdbid'') = None \<or>
           (\<exists>v. Map.empty (js ''imdbid'') = Some v \<and> \<not> truthy v)"
    by simp
  have b: "[js ''imdbid'' \<mapsto> JStr []] (js ''imdbid'') = None \<or>
           (\<exists>v. [js ''imdbid'' \<mapsto> JStr []] (js ''imdbid'') = Some v \<and> \<not> truthy v)"
    by simp
  from scrapeMovie_missing_imdbid [of Map.empty someEngine someMovieEnv newScraper, OF a]
    scrapeMovie_missing_imdbid
      [of "[js ''imdbid'' \<mapsto> JStr []]" someEngine someMovieEnv newScraper, OF b]
  show ?thesis
    by simp
qed

section \<open>Launch strategies\<close>

lemma launches_append: "launches (xs @ ys) = launches xs @ launches ys"
  by (simp add: launches_def)

lemma strategyWarnings_append:
  "strategyWarnings (xs @ ys) = strategyWarnings xs @ strategyWarnings ys"
  by (simp add: strategyWarnings_def)

lemma launches_Cons: "launches (x # xs) = launchOf x @ launches xs"
  by (simp add: launches_def)

lemma strategyWarnings_Cons: "strategyWarnings (x # xs) = warningOf x @ strategyWarnings xs"
  by (simp add: strategyWarnings_def)

lemma pageSetup_quiet:
  "launches (snd (pageSetup w p s)) = [] \<and> strategyWarnings (snd (pageSetup w p s)) = []"
  by (simp add: pageSetup_def launches_def strategyWarnings_def split: sum.splits)

lemma navigate_quiet:
  "launches (snd (navigate link w p s)) = [] \<and> strategyWarnings (snd (navigate link w p s)) = []"
  by (simp add: navigate_def launches_def strategyWarnings_def split: sum.splits)

lemma afterLaunch_quiet:
  assumes "afterLaunch link w launched s1 tr1 = (r, s2, tr)"
  shows "launches tr = launches tr1 \<and> strategyWarnings tr = strategyWarnings tr1"
proof (cases "launched \<and> browser s1 \<noteq> None")
  case False
  with assms show ?thesis
    by (auto simp: afterLaunch_def split: if_splits)
next
  case True
  then obtain b where b: "browser s1 = Some b" and l: launched
    by auto
  show ?thesis
  proof (cases "newPage w")
    case (Inl e)
    with b l assms show ?thesis
      by (auto simp: afterLaunch_def launches_def strategyWarnings_def)
  next
    case np: (Inr p)
    let ?s2 = "s1\<lparr>page := Some p\<rparr>"
    obtain r2 tr2 where ps: "pageSetup w p ?s2 = (r2, tr2)"
      by (cases "pageSetup w p ?s2")
    obtain r3 tr3 where nv: "navigate link w p ?s2 = (r3, tr3)"
      by (cases "navigate link w p ?s2")
    from pageSetup_quiet [of w p ?s2] ps
    have q2: "launches tr2 = []" "strategyWarnings tr2 = []"
      by simp_all
    from navigate_quiet [of link w p ?s2] nv
    have q3: "launches tr3 = []" "strategyWarnings tr3 = []"
      by simp_all
    from b l np ps nv assms have "tr = tr1 @ [(NewPage b, s1)] @ tr2 \<or>
        tr = tr1 @ [(NewPage b, s1)] @ tr2 @ tr3"
      by (cases r2) (auto simp: afterLaunch_def Let_def)
    with q2 q3 show ?thesis
      by (auto simp: launches_append strategyWarnings_append launches_Cons
          strategyWarnings_Cons)
  qed
qed

lemma tryStrategies_launched:
  "fst (tryStrategies w k strs s) = (\<exists>opts\<in>set strs. \<not> isl (launch w opts))"
proof (induction strs arbitrary: k)
  case Nil
  show ?case by simp
next
  case (Cons strategy rest)
  show ?case
  proof (cases "launch w strategy")
    case (Inr b)
    then show ?thesis by simp
  next
    case (Inl e)
    obtain l2 s2 tr2 where "tryStrategies w (Suc k) rest s = (l2, s2, tr2)"
      by (cases "tryStrategies w (Suc k) rest s")
    with Cons [of "Suc k"] Inl show ?thesis
      by simp
  qed
qed

lemma tryStrategies_first:
  "k < length strs \<Longrightarrow> launch w (strs ! k) = Inr b \<Longrightarrow> \<forall>j<k. isl (launch w (strs ! j)) \<Longrightarrow>
   \<exists>tr. tryStrategies w n strs s = (True, s\<lparr>browser := Some b\<rparr>, tr) \<and>
        launches tr = take (Suc k) strs \<and> strategyWarnings tr = [n..<n + k]"
proof (induction strs arbitrary: k n)
  case Nil
  then show ?case by simp
next
  case (Cons strategy rest)
  show ?case
  proof (cases k)
    case 0
    with Cons.prems show ?thesis
      by (simp add: launches_def strategyWarnings_def)
  next
    case (Suc k')
    with Cons.prems have "isl (launch w strategy)"
      by auto
    then obtain e where e: "launch w strategy = Inl e"
      by (cases "launch w strategy") auto
    from Suc Cons.prems have "k' < length rest" and "launch w (rest ! k') = Inr b"
      and "\<forall>j<k'. isl (launch w (rest ! j))"
      by auto
    from Cons.IH [OF this, of "Suc n"] obtain tr where
      tr: "tryStrategies w (Suc n) rest s = (True, s\<lparr>browser := Some b\<rparr>, tr)"
      and l: "launches tr = take (Suc k') rest" and sw: "strategyWarnings tr = [Suc n..<Suc n + k']"
      by blast
    from e tr l sw Suc show ?thesis
      by (simp add: launches_Cons strategyWarnings_Cons upt_conv_Cons)
  qed
qed

lemma attemptTry_all_fail:
  assumes "\<forall>opts\<in>set strategies. isl (launch w opts)"
  shows "outcome (attemptTry link w s) = Inl (Error (js ''All browser launch strategies failed''))"
proof -
  obtain launched s1 tr1 where ts: "tryStrategies w 1 strategies s = (launched, s1, tr1)"
    by (cases "tryStrategies w 1 strategies s")
  with tryStrategies_launched [of w 1 strategies s] assms have "\<not> launched"
    by simp
  with ts show ?thesis
    by (simp add: attemptTry_def afterLaunch_def outcome_def)
qed

text \<open>
  C8. When strategies 1 and 2 throw and strategy 3 gives a browser, the strategy loop
  makes the three launches in order, warns about the first two, and leaves that browser
  in the scraper; the attempt goes on from there. If the rest of the first attempt
  succeeds, \<open>startWithRetry\<close> returns with exactly what that attempt did: the browser
  of strategy 3, three launches, two warnings, no second attempt. In general the first
  strategy that gives a browser supplies it, after launches of the strategies up to it
  and no other. The loop reports no browser exactly when every strategy throws, and
  then the attempt fails with \<open>All browser launch strategies failed\<close>.
\<close>

theorem startWithRetry_third_strategy:
  assumes "1 \<le> maxRetries"
    and "launch (ws 1) Configured = Inl e1"
    and "launch (ws 1) Minimal = Inl e2"
    and "launch (ws 1) SystemChrome = Inr b"
  shows "tryStrategies (ws 1) 1 strategies s =
           (True, s\<lparr>browser := Some b\<rparr>,
            [(Launch Configured, s), (WarnStrategyFailed 1, s),
             (Launch Minimal, s), (WarnStrategyFailed 2, s),
             (Launch SystemChrome, s)]) \<and>
         attemptTry link (ws 1) s =
           afterLaunch link (ws 1) True (s\<lparr>browser := Some b\<rparr>)
             [(Launch Configured, s), (WarnStrategyFailed 1, s),
              (Launch Minimal, s), (WarnStrategyFailed 2, s),
              (Launch SystemChrome, s)] \<and>
         (\<forall>u s1 tr. attemptTry link (ws 1) s = (Inr u, s1, tr) \<longrightarrow>
            startWithRetry link maxRetries ws s = (Inr (), s1, tr) \<and>
            browser s1 = Some b \<and>
            launches tr = [Configured, Minimal, SystemChrome] \<and>
            strategyWarnings tr = [1, 2]) \<and>
         (\<forall>w s0 k b'. k < length strategies \<and> launch w (strategies ! k) = Inr b' \<and>
                       (\<forall>j<k. isl (launch w (strategies ! j))) \<longrightarrow>
                  (\<exists>tr. tryStrategies w 1 strategies s0 = (True, s0\<lparr>browser := Some b'\<rparr>, tr) \<and>
                        launches tr = take (Suc k) strategies \<and>
                        strategyWarnings tr = [1..<Suc k])) \<and>
         (\<forall>w s0. fst (tryStrategies w 1 strategies s0) =
                  (\<not> (\<forall>opts\<in>set strategies. isl (launch w opts)))) \<and>
         (\<forall>w s0. (\<forall>opts\<in>set strategies. isl (launch w opts)) \<longrightarrow>
                  outcome (attemptTry link w s0) =
                    Inl (Error (js ''All browser launch strategies failed'')))"
proof -
  let ?tr1 = "[(Launch Configured, s), (WarnStrategyFailed 1, s),
               (Launch Minimal, s), (WarnStrategyFailed 2, s),
               (Launch SystemChrome, s)]"
  have ts: "tryStrategies (ws 1) 1 strategies s = (True, s\<lparr>browser := Some b\<rparr>, ?tr1)"
    using assms(2-4) by (simp add: strategies_def)
  then have at: "attemptTry link (ws 1) s = afterLaunch link (ws 1) True (s\<lparr>browser := Some b\<rparr>) ?tr1"
    by (simp add: attemptTry_def)
  have one: "startWithRetry link maxRetries ws s = (Inr (), s1, tr) \<and>
      browser s1 = Some b \<and> launches tr = [Configured, Minimal, SystemChrome] \<and>
      strategyWarnings tr = [1, 2]"
    if ok: "attemptTry link (ws 1) s = (Inr u, s1, tr)" for u s1 tr
  proof -
    from ok at have al: "afterLaunch link (ws 1) True (s\<lparr>browser := Some b\<rparr>) ?tr1 = (Inr u, s1, tr)"
      by simp
    from afterLaunch_success [OF al] have "browser s1 = Some b"
      by simp
    moreover from afterLaunch_quiet [OF al]
    have "launches tr = [Configured, Minimal, SystemChrome]" and "strategyWarnings tr = [1, 2]"
      by (simp_all add: launches_def strategyWarnings_def)
    moreover from attemptLoop_success [of 1 maxRetries link ws s u s1 tr None, OF assms(1) ok]
    have "startWithRetry link maxRetries ws s = (Inr (), s1, tr)"
      by (simp add: startWithRetry_def)
    ultimately show ?thesis
      by simp
  qed
  have first: "\<exists>tr. tryStrategies w 1 strategies s0 = (True, s0\<lparr>browser := Some b'\<rparr>, tr) \<and>
      launches tr = take (Suc k) strategies \<and> strategyWarnings tr = [1..<Suc k]"
    if "k < length strategies" and "launch w (strategies ! k) = Inr b'"
      and "\<forall>j<k. isl (launch w (strategies ! j))" for w s0 k b'
    using tryStrategies_first [OF that, of 1 s0] by simp
  have flag: "fst (tryStrategies w 1 strategies s0) =
      (\<not> (\<forall>opts\<in>set strategies. isl (launch w opts)))" for w s0
    by (simp add: tryStrategies_launched)
  from ts at one first flag attemptTry_all_fail [of _ link] show ?thesis
    by blast
qed

lemma attemptTry_systemChromeWorld:
  "attemptTry link systemChromeWorld newScraper =
     (Inr (), \<lparr>browser = Some 7, page = Some 8\<rparr>,
      [(Launch Configured, newScraper), (WarnStrategyFailed 1, newScraper),
       (Launch Minimal, newScraper), (WarnStrategyFailed 2, newScraper),
       (Launch SystemChrome, newScraper),
       (NewPage 7, \<lparr>browser = Some 7, page = None\<rparr>),
       (SetUserAgent 8, \<lparr>browser = Some 7, page = Some 8\<rparr>),
       (SetViewport 8, \<lparr>browser = Some 7, page = Some 8\<rparr>),
       (Goto 8 (Direct link), \<lparr>browser = Some 7, page = Some 8\<rparr>),
       (Goto 8 (ViaScraperApi link), \<lparr>browser = Some 7, page = Some 8\<rparr>),
       (Sleep 3000, \<lparr>browser = Some 7, page = Some 8\<rparr>)])"
  by (simp add: attemptTry_def strategies_def afterLaunch_def pageSetup_def navigate_def
      systemChromeWorld_def newScraper_def Let_def)

theorem startWithRetry_third_strategy_witness:
  "(1::nat) \<le> 3 \<and>
   launch systemChromeWorld Configured = Inl (Error (js ''Could not find Chrome'')) \<and>
   launch systemChromeWorld Minimal = Inl (Error (js ''Could not find Chrome'')) \<and>
   launch systemChromeWorld SystemChrome = Inr 7 \<and>
   startWithRetry trendingLink 3 (\<lambda>attempt. systemChromeWorld) newScraper =
     (Inr (), \<lparr>browser = Some 7, page = Some 8\<rparr>,
      [(Launch Configured, newScraper), (WarnStrategyFailed 1, newScraper),
       (Launch Minimal, newScraper), (WarnStrategyFailed 2, newScraper),
       (Launch SystemChrome, newScraper),
       (NewPage 7, \<lparr>browser = Some 7, page = None\<rparr>),
       (SetUserAgent 8, \<lparr>browser = Some 7, page = Some 8\<rparr>),
       (SetViewport 8, \<lparr>browser = Some 7, page = Some 8\<rparr>),
       (Goto 8 (Direct trendingLink), \<lparr>browser = Some 7, page = Some 8\<rparr>),
       (Goto 8 (ViaScraperApi trendingLink), \<lparr>browser = Some 7, page = Some 8\<rparr>),
       (Sleep 3000, \<lparr>browser = Some 7, page = Some 8\<rparr>)])"
proof -
  have n: "(1::nat) \<le> 3"
    by simp
  have l1: "launch systemChromeWorld Configured = Inl (Error (js ''Could not find Chrome''))"
    and l2: "launch systemChromeWorld Minimal = Inl (Error (js ''Could not find Chrome''))"
    and l3: "launch systemChromeWorld SystemChrome = Inr 7"
    by (simp_all add: systemChromeWorld_def)
  from startWithRetry_third_strategy
    [of 3 "\<lambda>attempt. systemChromeWorld" "Error (js ''Could not find Chrome'')"
       "Error (js ''Could not find Chrome'')" 7 newScraper trendingLink, OF n l1 l2 l3]
    attemptTry_systemChromeWorld [of trendingLink]
  have "startWithRetry trendingLink 3 (\<lambda>attempt. systemChromeWorld) newScraper =
     (Inr (), \<lparr>browser = Some 7, page = Some 8\<rparr>,
      [(Launch Configured, newScraper), (WarnStrategyFailed 1, newScraper),
       (Launch Minimal, newScraper), (WarnStrategyFailed 2, newScraper),
       (Launch SystemChrome, newScraper),
       (NewPage 7, \<lparr>browser = Some 7, page = None\<rparr>),
       (SetUserAgent 8, \<lparr>browser = Some 7, page = Some 8\<rparr>),
       (SetViewport 8, \<lparr>browser = Some 7, page = Some 8\<rparr>),
       (Goto 8 (Direct trendingLink), \<lparr>browser = Some 7, page = Some 8\<rparr>),
       (Goto 8 (ViaScraperApi trendingLink), \<lparr>browser = Some 7, page = Some 8\<rparr>),
       (Sleep 3000, \<lparr>browser = Some 7, page = Some 8\<rparr>)])"
    by blast
  with n l1 l2 l3 show ?thesis
    by blast
qed

section \<open>Deduplication of video sources\<close>

lemma findIndexFrom_eq:
  "(findIndexFrom p k xs = int i) =
     (k \<le> i \<and> i - k < length xs \<and> p (xs ! (i - k)) \<and> (\<forall>j<i - k. \<not> p (xs ! j)))"
proof (induction xs arbitrary: k)
  case Nil
  show ?case by simp
next
  case (Cons x xs)
  show ?case
  proof (cases "p x")
    case True
    then have "\<exists>j<i - k. p ((x # xs) ! j)" if "k < i"
      using that by (intro exI [of _ 0]) simp
    with True show ?thesis
      by (cases "i = k") auto
  next
    case False
    show ?thesis
    proof (cases "i \<le> k")
      case True
      with False Cons [of "Suc k"] show ?thesis
        by auto
    next
      case gt: False
      then obtain m where m: "i - k = Suc m" and m': "i - Suc k = m"
        by (cases "i - k") auto
      have "(\<forall>j<Suc m. \<not> p ((x # xs) ! j)) = (\<forall>j<m. \<not> p (xs ! j))"
        using False by (auto simp: less_Suc_eq_0_disj)
      with False gt m m' Cons [of "Suc k"] show ?thesis
        by auto
    qed
  qed
qed

lemma findIndex_first:
  "i < length xs \<Longrightarrow>
   (int i = findIndex (\<lambda>s. src s = src (xs ! i)) xs) = (\<forall>j<i. src (xs ! j) \<noteq> src (xs ! i))"
  using findIndexFrom_eq [of "\<lambda>s. src s = src (xs ! i)" 0 xs i]
  by (auto simp: findIndex_def)

lemma filterFrom_nth:
  "filterFrom f k self xs =
     map (\<lambda>i. xs ! i) (filter (\<lambda>i. f (xs ! i) (k + i) self) [0..<length xs])"
proof (induction xs arbitrary: k)
  case Nil
  show ?case by simp
next
  case (Cons x xs)
  have "[0..<length (x # xs)] = 0 # map Suc [0..<length xs]"
    by (simp add: upt_conv_Cons map_Suc_upt del: upt_Suc)
  with Cons [of "Suc k"] show ?case
    by (simp add: filter_map o_def del: upt_Suc)
qed

lemma filterFrom_subseq: "subseq (filterFrom f k self xs) xs"
  by (induction xs arbitrary: k) auto

lemma uniqueSources_nth:
  "uniqueSources v w =
     map (\<lambda>i. (v @ w) ! i)
       (filter (\<lambda>i. \<forall>j<i. src ((v @ w) ! j) \<noteq> src ((v @ w) ! i)) [0..<length (v @ w)])"
proof -
  have "filter (\<lambda>i. int i = findIndex (\<lambda>s. src s = src ((v @ w) ! i)) (v @ w))
          [0..<length (v @ w)] =
        filter (\<lambda>i. \<forall>j<i. src ((v @ w) ! j) \<noteq> src ((v @ w) ! i)) [0..<length (v @ w)]"
    by (rule filter_cong) (simp_all add: findIndex_first)
  then show ?thesis
    by (simp add: uniqueSources_def filterIndexed_def filterFrom_nth Let_def)
qed

lemma first_occurrences_distinct:
  "distinct (map src (map (\<lambda>i. xs ! i)
     (filter (\<lambda>i. \<forall>j<i. src (xs ! j) \<noteq> src (xs ! i)) [0..<length xs])))"
proof -
  have "inj_on (\<lambda>i. src (xs ! i)) {i. \<forall>j<i. src (xs ! j) \<noteq> src (xs ! i)}"
  proof (rule inj_onI)
    fix a b
    assume a: "a \<in> {i. \<forall>j<i. src (xs ! j) \<noteq> src (xs ! i)}"
      and b: "b \<in> {i. \<forall>j<i. src (xs ! j) \<noteq> src (xs ! i)}"
      and eq: "src (xs ! a) = src (xs ! b)"
    show "a = b"
    proof (rule ccontr)
      assume "a \<noteq> b"
      then consider "a < b" | "b < a"
        by (auto simp: neq_iff)
      then show False
        using a b eq by cases auto
    qed
  qed
  then have "inj_on (\<lambda>i. src (xs ! i))
      (set (filter (\<lambda>i. \<forall>j<i. src (xs ! j) \<noteq> src (xs ! i)) [0..<length xs]))"
    by (rule inj_on_subset) auto
  then show ?thesis
    by (simp add: distinct_map o_def)
qed

lemma first_occurrences_cover:
  "src ` set (map (\<lambda>i. xs ! i)
     (filter (\<lambda>i. \<forall>j<i. src (xs ! j) \<noteq> src (xs ! i)) [0..<length xs])) = src ` set xs"
proof
  show "src ` set (map (\<lambda>i. xs ! i)
     (filter (\<lambda>i. \<forall>j<i. src (xs ! j) \<noteq> src (xs ! i)) [0..<length xs])) \<subseteq> src ` set xs"
    by auto
next
  show "src ` set xs \<subseteq> src ` set (map (\<lambda>i. xs ! i)
     (filter (\<lambda>i. \<forall>j<i. src (xs ! j) \<noteq> src (xs ! i)) [0..<length xs]))"
  proof
    fix u
    assume "u \<in> src ` set xs"
    then obtain m where m: "m < length xs" "src (xs ! m) = u"
      by (auto simp: in_set_conv_nth)
    define i where "i = (LEAST i. i < length xs \<and> src (xs ! i) = u)"
    from m have i: "i < length xs \<and> src (xs ! i) = u"
      unfolding i_def by (intro LeastI [of "\<lambda>i. i < length xs \<and> src (xs ! i) = u" m]) simp
    have "src (xs ! j) \<noteq> src (xs ! i)" if "j < i" for j
    proof
      assume "src (xs ! j) = src (xs ! i)"
      with i that have "j < length xs \<and> src (xs ! j) = u"
        by simp
      then have "i \<le> j"
        unfolding i_def by (rule Least_le)
      with that show False
        by simp
    qed
    with i show "u \<in> src ` set (map (\<lambda>i. xs ! i)
       (filter (\<lambda>i. \<forall>j<i. src (xs ! j) \<noteq> src (xs ! i)) [0..<length xs]))"
      by (auto simp: image_iff)
  qed
qed

text \<open>
  C3. The deduplicated sequence holds no \<open>src\<close> twice; it consists of the entries of the
  concatenated input that have no earlier entry with the same \<open>src\<close>, in input order;
  every \<open>src\<close> of the input is still present.
\<close>

theorem uniqueSources_first_occurrences:
  "distinct (map src (uniqueSources videoSources imdbVideoSources)) \<and>
   uniqueSources videoSources imdbVideoSources =
     map (\<lambda>i. (videoSources @ imdbVideoSources) ! i)
       (filter (\<lambda>i. \<forall>j<i. src ((videoSources @ imdbVideoSources) ! j) \<noteq>
                            src ((videoSources @ imdbVideoSources) ! i))
          [0..<length (videoSources @ imdbVideoSources)]) \<and>
   subseq (uniqueSources videoSources imdbVideoSources) (videoSources @ imdbVideoSources) \<and>
   src ` set (uniqueSources videoSources imdbVideoSources) =
     src ` set (videoSources @ imdbVideoSources)"
proof -
  have "subseq (uniqueSources videoSources imdbVideoSources) (videoSources @ imdbVideoSources)"
    by (simp add: uniqueSources_def filterIndexed_def filterFrom_subseq Let_def)
  then show ?thesis
    using first_occurrences_distinct [of "videoSources @ imdbVideoSources"]
      first_occurrences_cover [of "videoSources @ imdbVideoSources"]
    by (simp only: uniqueSources_nth [symmetric])
qed

lemma uniqueSources_example:
  "uniqueSources nativeSources playerSources =
     [\<lparr>src = js ''https://v.example/a.mp4'', \<dots> = 1\<rparr>,
      \<lparr>src = js ''https://v.example/b.mp4'', \<dots> = 1\<rparr>,
      \<lparr>src = js ''https://v.example/c.mp4'', \<dots> = 2\<rparr>]"
  by (simp add: uniqueSources_def filterIndexed_def findIndex_def nativeSources_def
      playerSources_def js_eval Let_def)

theorem uniqueSources_first_occurrences_witness:
  "uniqueSources nativeSources playerSources =
     [\<lparr>src = js ''https://v.example/a.mp4'', \<dots> = 1\<rparr>,
      \<lparr>src = js ''https://v.example/b.mp4'', \<dots> = 1\<rparr>,
      \<lparr>src = js ''https://v.example/c.mp4'', \<dots> = 2\<rparr>] \<and>
   distinct (map src (uniqueSources nativeSources playerSources)) \<and>
   subseq (uniqueSources nativeSources playerSources) (nativeSources @ playerSources)"
  using uniqueSources_first_occurrences [of nativeSources playerSources] uniqueSources_example
  by blast

section \<open>The gateway client\<close>

lemma retryLoop_exhausted:
  "\<not> attempt \<le> maxRetries \<Longrightarrow> retryLoop gateway maxRetries attempt lastError = (Inl lastError, [])"
  by (subst retryLoop.simps) simp

lemma retryLoop_success:
  "attempt \<le> maxRetries \<Longrightarrow> gateway attempt = Inr html \<Longrightarrow>
   retryLoop gateway maxRetries attempt lastError = (Inr html, [Request attempt])"
  by (subst retryLoop.simps) (simp add: scrapeUrl_def)

lemma retryLoop_failure:
  "attempt \<le> maxRetries \<Longrightarrow> gateway attempt = Inl e \<Longrightarrow>
   retryLoop gateway maxRetries attempt lastError =
     (case retryLoop gateway maxRetries (Suc attempt)
             (Some (Error (js ''Failed to scrape URL: '' @ message e))) of
        (r, tr) \<Rightarrow>
          (r, Request attempt #
              (if attempt < maxRetries then [Delay (2 ^ attempt * 1000)] else []) @ tr))"
  by (subst retryLoop.simps) (simp add: scrapeUrl_def)

lemma backoff_same: "backoff j j = [Request j]"
  by (simp add: backoff_def)

lemma backoff_step: "a < j \<Longrightarrow> backoff a j = Request a # Delay (2 ^ a * 1000) # backoff (Suc a) j"
  by (simp add: backoff_def upt_conv_Cons)

lemma retryLoop_backoff_success:
  "a \<le> j \<Longrightarrow> j \<le> maxRetries \<Longrightarrow> \<forall>k. a \<le> k \<and> k < j \<longrightarrow> isl (gateway k) \<Longrightarrow>
   gateway j = Inr html \<Longrightarrow>
   retryLoop gateway maxRetries a lastError = (Inr html, backoff a j)"
proof (induction "j - a" arbitrary: a lastError)
  case 0
  then show ?case
    by (simp add: retryLoop_success backoff_same)
next
  case (Suc n)
  then have lt: "a < j"
    by simp
  with Suc.prems have "isl (gateway a)"
    by simp
  then obtain e where e: "gateway a = Inl e"
    by (cases "gateway a") auto
  from Suc.hyps(2) have n: "n = j - Suc a"
    by simp
  from lt Suc.prems have "Suc a \<le> j" and "\<forall>k. Suc a \<le> k \<and> k < j \<longrightarrow> isl (gateway k)"
    by simp_all
  from Suc.hyps(1) [OF n this(1) Suc.prems(2) this(2) Suc.prems(4),
      of "Some (Error (js ''Failed to scrape URL: '' @ message e))"]
    lt Suc.prems(2) e
  show ?case
    by (simp add: retryLoop_failure backoff_step)
qed

lemma retryLoop_backoff_failure:
  "a \<le> maxRetries \<Longrightarrow> \<forall>k. a \<le> k \<and> k < maxRetries \<longrightarrow> isl (gateway k) \<Longrightarrow>
   gateway maxRetries = Inl e \<Longrightarrow>
   retryLoop gateway maxRetries a lastError =
     (Inl (Some (Error (js ''Failed to scrape URL: '' @ message e))), backoff a maxRetries)"
proof (induction "maxRetries - a" arbitrary: a lastError)
  case 0
  then show ?case
    by (simp add: retryLoop_failure retryLoop_exhausted backoff_same)
next
  case (Suc n)
  then have lt: "a < maxRetries"
    by simp
  with Suc.prems have "isl (gateway a)"
    by simp
  then obtain e' where e': "gateway a = Inl e'"
    by (cases "gateway a") auto
  from Suc.hyps(2) have n: "n = maxRetries - Suc a"
    by simp
  from lt Suc.prems have "Suc a \<le> maxRetries"
    and "\<forall>k. Suc a \<le> k \<and> k < maxRetries \<longrightarrow> isl (gateway k)"
    by simp_all
  from Suc.hyps(1) [OF n this(1) this(2) Suc.prems(3),
      of "Some (Error (js ''Failed to scrape URL: '' @ message e'))"]
    lt e'
  show ?case
    by (simp add: retryLoop_failure backoff_step)
qed

text \<open>
  C4 as amended. With \<open>maxRetries\<close> at least 1 and every attempt before \<open>j\<close> failing,
  \<open>scrapeWithRetry\<close> sends the requests 1 to \<open>j\<close> and waits \<open>2 ^ k\<close> seconds after the
  failed attempt \<open>k\<close> (2, 4, 8, ... seconds). It returns the body of attempt \<open>j\<close> if that
  one succeeds, and if attempt \<open>maxRetries\<close> fails as well it throws the error of that
  last attempt, with no wait after it.
\<close>

theorem scrapeWithRetry_backoff:
  assumes "1 \<le> j" and "j \<le> maxRetries" and "\<forall>k. 1 \<le> k \<and> k < j \<longrightarrow> isl (gateway k)"
  shows "(\<forall>html. gateway j = Inr html \<longrightarrow>
            scrapeWithRetry gateway maxRetries = (Inr html, backoff 1 j)) \<and>
         (\<forall>e. gateway j = Inl e \<and> j = maxRetries \<longrightarrow>
            scrapeWithRetry gateway maxRetries =
              (Inl (Some (Error (js ''Failed to scrape URL: '' @ message e))),
               backoff 1 maxRetries))"
  using assms
  by (auto simp: scrapeWithRetry_def retryLoop_backoff_success retryLoop_backoff_failure)

lemma backoff_1_3:
  "backoff 1 3 = [Request 1, Delay 2000, Request 2, Delay 4000, Request 3]"
  by (simp add: backoff_def upt_conv_Cons)

lemma specBackoff_1_3:
  "specBackoff 1 3 = [Request 1, Delay 1000, Request 2, Delay 2000, Request 3]"
  by (simp add: specBackoff_def upt_conv_Cons)

lemma timeout_message:
  "js ''Failed to scrape URL: '' @ message (Error (js ''timeout'')) =
   js ''Failed to scrape URL: timeout''"
  by (simp add: js_def)

lemma deadGateway_run:
  "scrapeWithRetry deadGateway 3 =
     (Inl (Some (Error (js ''Failed to scrape URL: timeout''))),
      [Request 1, Delay 2000, Request 2, Delay 4000, Request 3])"
proof -
  have "retryLoop deadGateway 3 1 None =
     (Inl (Some (Error (js ''Failed to scrape URL: '' @ message (Error (js ''timeout''))))),
      backoff 1 3)"
    by (rule retryLoop_backoff_failure) (simp_all add: deadGateway_def)
  then show ?thesis
    by (simp only: scrapeWithRetry_def backoff_1_3 timeout_message)
qed

theorem scrapeWithRetry_backoff_witness:
  "(1::nat) \<le> 3 \<and> isl (deadGateway 1) \<and> isl (deadGateway 2) \<and>
   deadGateway 3 = Inl (Error (js ''timeout'')) \<and>
   scrapeWithRetry deadGateway 3 =
     (Inl (Some (Error (js ''Failed to scrape URL: timeout''))),
      [Request 1, Delay 2000, Request 2, Delay 4000, Request 3])"
proof -
  have a: "(1::nat) \<le> 3" and b: "(3::nat) \<le> 3"
    by simp_all
  have c: "\<forall>k. 1 \<le> k \<and> k < 3 \<longrightarrow> isl (deadGateway k)"
    by (simp add: deadGateway_def)
  have d: "deadGateway 3 = Inl (Error (js ''timeout''))"
    and i: "isl (deadGateway 1)" "isl (deadGateway 2)"
    by (simp_all add: deadGateway_def)
  from scrapeWithRetry_backoff [OF a b c] d
  have "scrapeWithRetry deadGateway 3 =
     (Inl (Some (Error (js ''Failed to scrape URL: '' @ message (Error (js ''timeout''))))),
      backoff 1 3)"
    by blast
  then have "scrapeWithRetry deadGateway 3 =
     (Inl (Some (Error (js ''Failed to scrape URL: timeout''))),
      [Request 1, Delay 2000, Request 2, Delay 4000, Request 3])"
    by (simp only: backoff_1_3 timeout_message)
  with a d i show ?thesis
    by blast
qed

text \<open>
  C4 as stated fails: with three attempts that all fail, the waits are 2 and 4 seconds,
  not the 1 and 2 seconds of the specification.
\<close>

theorem scrapeWithRetry_schedule_counterexample:
  "snd (scrapeWithRetry deadGateway 3) =
     [Request 1, Delay 2000, Request 2, Delay 4000, Request 3] \<and>
   specBackoff 1 3 = [Request 1, Delay 1000, Request 2, Delay 2000, Request 3] \<and>
   snd (scrapeWithRetry deadGateway 3) \<noteq> specBackoff 1 3"
  by (simp only: deadGateway_run specBackoff_1_3 snd_conv) simp

section \<open>The srcset branch\<close>




















text \<open>For contrast, a request with an identifier goes through a whole session.\<close>

lemma scrapeMovie_example:
  "scrapeMovie someEngine someMovieEnv newScraper (Some [js ''imdbid'' \<mapsto> JStr (js ''tt1375666'')]) =
     ((200, MovieSuccess 0), newScraper,
      [(Launch Configured, newScraper),
       (NewPage 1, \<lparr>browser = Some 1, page = None\<rparr>),
       (SetUserAgent 2, loadedScraper),
       (SetViewport 2, loadedScraper),
       (Goto 2 (Direct (js ''https://www.imdb.com/title/tt1375666/'')), loadedScraper),
       (Sleep 3000, loadedScraper),
       (RunExtractors 2, loadedScraper),
       (BrowserClose 1, loadedScraper)])"
proof -
  have l: "js ''https://www.imdb.com/title/'' @ toString (JStr (js ''tt1375666'')) @ js ''/'' =
      js ''https://www.imdb.com/title/tt1375666/''"
    by (simp add: js_def)
  have s: "startWithRetry (js ''https://www.imdb.com/title/tt1375666/'') 3
             (movieSessions someMovieEnv) newScraper =
           attemptTry (js ''https://www.imdb.com/title/tt1375666/'') okWorld newScraper"
    using attemptLoop_success [of 1 3 _ "\<lambda>attempt. okWorld" newScraper, OF _ attemptTry_okWorld]
    by (simp add: startWithRetry_def someMovieEnv_def attemptTry_okWorld)
  have c: "close (closeAfterMovie someMovieEnv) loadedScraper =
      (Inr (), newScraper, [(BrowserClose 1, loadedScraper)])"
    by (simp add: close_def closeTry_def loadedScraper_def newScraper_def someMovieEnv_def)
  have p: "page loadedScraper = Some 2" and t: "truthy (JStr (js ''tt1375666''))"
    and x: "extracted someMovieEnv = 0"
    by (simp_all add: loadedScraper_def js_def someMovieEnv_def)
  show ?thesis
    by (simp add: scrapeMovie_def scrapeMovieTry_def scrapeCompleteMovieData_def l s
        attemptTry_okWorld c p t x del: toString.simps truthy.simps)
qed

section \<open>Overlapping requests\<close>

text \<open>
  Taken alone, the turns of a task do what the method does: \<open>close\<close> in two turns, and
  the attempt, in five turns, what the strategy loop and \<open>newPage\<close> do.
\<close>

lemma close_alone:
  "alone w 2 (CloseCalled, s) = (CloseReturned, finalState (close (browserClose w) s))"
  by (cases "browser s"; cases "browserClose w")
     (simp_all add: numeral_2_eq_2 finalState_def close_def closeTry_def)

lemma attempt_alone_launched:
  assumes "tryStrategies w 1 strategies s = (True, s1, tr)" and "newPage w = Inr p"
  shows "alone w 5 (AttemptCalled, s) = (AttemptAwaitsSetUserAgent p, s1\<lparr>page := Some p\<rparr>)"
  using assms
  by (cases "launch w Configured"; cases "launch w Minimal"; cases "launch w SystemChrome")
     (auto simp: strategies_def eval_nat_numeral)

lemma attempt_alone_not_launched:
  assumes "tryStrategies w 1 strategies s = (False, s1, tr)"
  shows "alone w 5 (AttemptCalled, s) =
           (AttemptThrew (Error (js ''All browser launch strategies failed'')), s)"
  using assms
  by (cases "launch w Configured"; cases "launch w Minimal"; cases "launch w SystemChrome")
     (auto simp: strategies_def eval_nat_numeral)

lemma attempt_alone_keeps:
  assumes "sessionInv s"
  shows "sessionInv (snd (alone w 5 (AttemptCalled, s)))"
proof -
  obtain launched s1 tr where ts: "tryStrategies w 1 strategies s = (launched, s1, tr)"
    by (cases "tryStrategies w 1 strategies s")
  from tryStrategies_keeps [OF assms ts] have i1: "sessionInv s1" and b: "launched \<longrightarrow> browser s1 \<noteq> None"
    by simp_all
  show ?thesis
  proof (cases launched)
    case False
    with ts assms show ?thesis
      by (simp add: attempt_alone_not_launched)
  next
    case True
    show ?thesis
    proof (cases "newPage w")
      case (Inr p)
      from True b have "sessionInv (s1\<lparr>page := Some p\<rparr>)"
        by (simp add: sessionInv_def)
      with True ts Inr show ?thesis
        by (simp add: attempt_alone_launched)
    next
      case (Inl e)
      with True ts i1 show ?thesis
        by (cases "launch w Configured"; cases "launch w Minimal"; cases "launch w SystemChrome")
           (auto simp: strategies_def eval_nat_numeral sessionInv_def)
    qed
  qed
qed

lemma overlap_run:
  "interleave secondWorld okWorld overlap (AttemptCalled, CloseCalled, loadedScraper) =
     (AttemptAwaitsSetUserAgent 8, CloseReturned, \<lparr>browser = None, page = Some 8\<rparr>)"
  by (simp add: overlap_def strategies_def secondWorld_def okWorld_def loadedScraper_def)

text \<open>
  C9 as stated fails. From a loaded session, which satisfies the invariant, a \<open>close\<close>
  and an attempt of \<open>startWithRetry\<close> that overlap leave a page and no browser: the
  \<open>close\<close>, suspended in the teardown since before the attempt stored its browser,
  clears both fields before the attempt stores its page. A later \<open>close\<close> then does
  nothing.
\<close>

theorem session_invariant_overlap_counterexample:
  "sessionInv loadedScraper \<and>
   interleave secondWorld okWorld [Second, First, First, Second, First]
     (AttemptCalled, CloseCalled, loadedScraper) =
     (AttemptAwaitsSetUserAgent 8, CloseReturned, \<lparr>browser = None, page = Some 8\<rparr>) \<and>
   \<not> sessionInv \<lparr>browser = None, page = Some 8\<rparr> \<and>
   close (Inr ()) \<lparr>browser = None, page = Some 8\<rparr> =
     (Inr (), \<lparr>browser = None, page = Some 8\<rparr>, [])"
  using overlap_run
  by (simp add: overlap_def sessionInv_def loadedScraper_def close_def closeTry_def)

end
